theory Spec2Isabelle
  imports Complex_Main "HOL-Library.Word"
begin

unbundle bit_operations_syntax

section \<open>Strings and the standard-library functions the validator calls\<close>

text \<open>
  A Python \<open>str\<close> is modelled as a \<open>string\<close>, one \<open>char\<close> per code point; the model
  therefore covers the code points 0 to 255 only. The functions of this section are
  not code of the repository: they model the parts of CPython 3 that
  \<open>validate_customer_oid\<close> and \<open>register_customer\<close> call (\<open>str.replace\<close>,
  \<open>str.strip\<close>, \<open>int(s, 16)\<close>, \<open>uuid.UUID(hex)\<close>, \<open>re.match\<close> on one fixed
  pattern, \<open>uuid.uuid4\<close> and \<open>str(UUID)\<close>).
\<close>

text \<open>\<open>s.replace(old, '')\<close> for a non-empty \<open>old\<close>: every occurrence, scanning from
  the left without overlaps, is removed.\<close>

function replace_empty :: "string \<Rightarrow> string \<Rightarrow> string" where
  "replace_empty old [] = []"
| "replace_empty old (c # cs) =
     (if old \<noteq> [] \<and> take (length old) (c # cs) = old
      then replace_empty old (drop (length old) (c # cs))
      else c # replace_empty old cs)"
  by pat_completeness auto
termination
  by (relation "measure (\<lambda>(old, s). length s)") auto

text \<open>\<open>s.strip(chars)\<close>: leading and trailing characters that occur in \<open>chars\<close> are
  dropped.\<close>

definition strip_chars :: "string \<Rightarrow> string \<Rightarrow> string" where
  "strip_chars chars s =
     rev (dropWhile (\<lambda>c. c \<in> set chars) (rev (dropWhile (\<lambda>c. c \<in> set chars) s)))"

text \<open>The table \<open>_PyLong_DigitValue\<close> of CPython: the value of a digit character in
  bases up to 36, and 37 for every other character.\<close>

definition digit_value :: "char \<Rightarrow> nat" where
  "digit_value c =
     (let n = (of_char c :: nat) in
      if 48 \<le> n \<and> n \<le> 57 then n - 48
      else if 97 \<le> n \<and> n \<le> 122 then n - 87
      else if 65 \<le> n \<and> n \<le> 90 then n - 55
      else 37)"

text \<open>The characters \<open>int()\<close> skips around a number: the ASCII white space of
  \<open>Py_ISSPACE\<close> (tab, line feed, vertical tab, form feed, carriage return, space)
  and, among the code points 128 to 255, the two Unicode spaces U+0085 and U+00A0,
  which \<open>int()\<close> turns into a space before parsing.\<close>

definition int_space :: "char \<Rightarrow> bool" where
  "int_space c = ((of_char c :: nat) \<in> {9, 10, 11, 12, 13, 32, 133, 160})"

definition hex_or_underscore :: "char \<Rightarrow> bool" where
  "hex_or_underscore c = (digit_value c < 16 \<or> c = CHR ''_'')"

fun double_underscore :: "string \<Rightarrow> bool" where
  "double_underscore (a # b # cs) =
     ((a = CHR ''_'' \<and> b = CHR ''_'') \<or> double_underscore (b # cs))"
| "double_underscore cs = False"

text \<open>The digit scan of \<open>PyLong_FromString\<close> for base 16: the longest run of
  hexadecimal digits and underscores is consumed; the scan fails when the run is
  empty, when two underscores are adjacent or when the run ends with an underscore.
  The result is the value of the digits and the unread rest.\<close>

definition scan_hex :: "string \<Rightarrow> (int \<times> string) option" where
  "scan_hex s =
     (let run = takeWhile hex_or_underscore s;
          rest = dropWhile hex_or_underscore s
      in if run = [] \<or> double_underscore run \<or> last run = CHR ''_'' then None
         else Some (foldl (\<lambda>acc c. 16 * acc + int (digit_value c)) 0
                      (filter (\<lambda>c. c \<noteq> CHR ''_'') run), rest))"

text \<open>\<open>int(s, 16)\<close>; \<open>None\<close> stands for \<open>ValueError\<close>. White space is skipped,
  then an optional sign, then an optional \<open>0x\<close> or \<open>0X\<close> prefix, after which one
  underscore is allowed; the digits may not start with an underscore; only white
  space may follow them.\<close>

definition skip_sign :: "string \<Rightarrow> int \<times> string" where
  "skip_sign s =
     (case s of
        [] \<Rightarrow> (1, s)
      | c # cs \<Rightarrow> if c = CHR ''+'' then (1, cs) else if c = CHR ''-'' then (- 1, cs) else (1, s))"

definition skip_prefix :: "string \<Rightarrow> string" where
  "skip_prefix s =
     (case s of
        a # b # cs \<Rightarrow>
          if a = CHR ''0'' \<and> (b = CHR ''x'' \<or> b = CHR ''X'')
          then (case cs of [] \<Rightarrow> cs | u # cs' \<Rightarrow> if u = CHR ''_'' then cs' else cs)
          else s
      | _ \<Rightarrow> s)"

definition int_base16 :: "string \<Rightarrow> int option" where
  "int_base16 s =
     (let (sign, s1) = skip_sign (dropWhile int_space s);
          s2 = skip_prefix s1
      in if take 1 s2 = ''_'' then None
         else (case scan_hex s2 of
                 None \<Rightarrow> None
               | Some (n, rest) \<Rightarrow>
                   if dropWhile int_space rest = [] then Some (sign * n) else None))"

text \<open>\<open>uuid.UUID(hex)\<close>: the value of \<open>self.int\<close>, or \<open>None\<close> for \<open>ValueError\<close>.\<close>

definition uuid_UUID :: "string \<Rightarrow> int option" where
  "uuid_UUID hex =
     (let hex1 = replace_empty ''uuid:'' (replace_empty ''urn:'' hex);
          hex2 = replace_empty ''-'' (strip_chars ''{}'' hex1)
      in if length hex2 \<noteq> 32 then None
         else (case int_base16 hex2 of
                 None \<Rightarrow> None
               | Some i \<Rightarrow> if 0 \<le> i \<and> i < 2 ^ 128 then Some i else None))"

text \<open>The character class \<open>[A-Z0-9-]\<close>.\<close>

definition oid_char :: "char \<Rightarrow> bool" where
  "oid_char c =
     (let n = (of_char c :: nat) in
      (65 \<le> n \<and> n \<le> 90) \<or> (48 \<le> n \<and> n \<le> 57) \<or> c = CHR ''-'')"

text \<open>\<open>re.match(r'^[A-Z0-9-]{8,36}$', s)\<close>. No character of the class is a line feed,
  so the repetition can only end where the longest run of class characters ends;
  \<open>$\<close> matches there when the run reaches the end of the string, and also when
  exactly one line feed follows it as the last character of the string.\<close>

definition re_match_oid :: "string \<Rightarrow> bool" where
  "re_match_oid s =
     (let run = takeWhile oid_char s; rest = dropWhile oid_char s
      in 8 \<le> length run \<and> length run \<le> 36 \<and> (rest = [] \<or> rest = [CHR 0x0A]))"

section \<open>The validator\<close>

text \<open>The exceptions a handler can see: the \<open>HTTPException\<close> of the web framework with
  its status code and detail, and any other exception, which here can only come from
  the database session.\<close>

datatype exn = HTTPException nat string | DatabaseError string

definition validate_customer_oid :: "string \<Rightarrow> exn + string" where
  "validate_customer_oid customer_oid =
     (if customer_oid = [] then Inl (HTTPException 400 ''CustomerOID cannot be empty'')
      else (case uuid_UUID customer_oid of
              Some parsed_uuid \<Rightarrow> Inr customer_oid
            | None \<Rightarrow>
                if \<not> re_match_oid customer_oid
                then Inl (HTTPException 400
                  ''Invalid CustomerOID format. Expected UUID format (e.g., 550e8400-e29b-41d4-a716-446655440000) or alphanumeric string'')
                else Inr customer_oid))"

text \<open>The two textual forms the specification names: the canonical hyphenated
  8-4-4-4-12 form of a UUID, in either letter case, and the legacy code of 8 to 36
  characters from \<open>[A-Z0-9-]\<close>.\<close>

definition hex_digit :: "char \<Rightarrow> bool" where
  "hex_digit c = (digit_value c < 16)"

definition canonical_uuid :: "string \<Rightarrow> bool" where
  "canonical_uuid s =
     (length s = 36 \<and>
      list_all hex_digit (take 8 s) \<and> s ! 8 = CHR ''-'' \<and>
      list_all hex_digit (take 4 (drop 9 s)) \<and> s ! 13 = CHR ''-'' \<and>
      list_all hex_digit (take 4 (drop 14 s)) \<and> s ! 18 = CHR ''-'' \<and>
      list_all hex_digit (take 4 (drop 19 s)) \<and> s ! 23 = CHR ''-'' \<and>
      list_all hex_digit (drop 24 s))"

definition legacy_code :: "string \<Rightarrow> bool" where
  "legacy_code s = (8 \<le> length s \<and> length s \<le> 36 \<and> list_all oid_char s)"

text \<open>A string whose last character is a line feed.\<close>

definition ends_with_line_feed :: "string \<Rightarrow> bool" where
  "ends_with_line_feed s = (s \<noteq> [] \<and> last s = CHR 0x0A)"

text \<open>A legacy code followed by one line feed.\<close>

definition legacy_code_with_line_feed :: "string \<Rightarrow> bool" where
  "legacy_code_with_line_feed s = (ends_with_line_feed s \<and> legacy_code (butlast s))"

text \<open>\<open>uuid.uuid4()\<close> and \<open>str\<close> of the result. The sixteen bytes of
  \<open>os.urandom(16)\<close>, read big-endian, are the parameter \<open>rnd\<close>; a value of
  \<open>int.from_bytes\<close> on sixteen bytes is a 128-bit word, and the constructor with
  \<open>version=4\<close> overwrites the variant and version bits.\<close>

definition uuid4 :: "128 word \<Rightarrow> 128 word" where
  "uuid4 rnd =
     (let i1 = rnd AND NOT (push_bit 48 0xc000);
          i2 = i1 OR push_bit 48 0x8000;
          i3 = i2 AND NOT (push_bit 64 0xf000)
      in i3 OR push_bit 76 4)"

text \<open>The 122 bits of the random bytes that \<open>uuid4\<close> keeps: all but the two
  variant bits and the four version bits.\<close>

definition random_bits :: "128 word" where
  "random_bits = NOT (push_bit 48 0xc000 OR push_bit 64 0xf000)"

definition hex_char :: "nat \<Rightarrow> char" where
  "hex_char d = ''0123456789abcdef'' ! d"

text \<open>\<open>'%0kx' % n\<close> for \<open>n < 16 ^ k\<close>: the \<open>k\<close> lowercase hexadecimal digits of \<open>n\<close>.\<close>

fun format_hex :: "nat \<Rightarrow> nat \<Rightarrow> string" where
  "format_hex 0 n = []"
| "format_hex (Suc k) n = format_hex k (n div 16) @ [hex_char (n mod 16)]"

definition uuid_str :: "128 word \<Rightarrow> string" where
  "uuid_str u =
     (let hex = format_hex 32 (unat u)
      in take 8 hex @ ''-'' @ take 4 (drop 8 hex) @ ''-'' @ take 4 (drop 12 hex) @ ''-'' @
         take 4 (drop 16 hex) @ ''-'' @ drop 20 hex)"

text \<open>\<open>s.strip()\<close>: the white space of \<open>str.isspace\<close> among the code points 0 to
  255 is dropped at both ends.\<close>

definition str_space :: "char \<Rightarrow> bool" where
  "str_space c = ((of_char c :: nat) \<in> {9, 10, 11, 12, 13, 28, 29, 30, 31, 32, 133, 160})"

definition strip :: "string \<Rightarrow> string" where
  "strip s = rev (dropWhile str_space (rev (dropWhile str_space s)))"

section \<open>The tables\<close>

text \<open>One record per table class of \<open>db.py\<close>; a field \<open>f\<close> of class \<open>C\<close> is named
  with a prefix for the class, since several classes share field names. A stored row
  always has its primary key. The \<open>float\<close> columns are modelled as reals: the
  aggregation only adds them, and the sums evaluated below are of values on which
  floating-point addition is exact.\<close>

record User =
  user_id :: int
  user_customer_oid :: string
  user_name :: string

record Asset =
  asset_id :: int
  asset_customer_oid :: string
  asset_type :: string
  asset_symbol :: string
  asset_amount :: real

record Transaction =
  transaction_id :: int
  transaction_customer_oid :: string
  transaction_date :: string
  transaction_type :: string
  transaction_asset :: "string option"
  transaction_amount :: real

record Spending =
  spending_id :: int
  spending_customer_oid :: string
  spending_category :: string
  spending_amount :: real
  spending_month :: string

record Institution =
  inst_id :: int
  inst_name :: string
  inst_type :: string
  inst_contact_info :: "string option"
  inst_internal_code :: string

record BankAccount =
  account_id :: int
  account_customer_oid :: string
  account_institution_id :: int
  account_balance :: real
  account_currency :: string
  account_iban :: "string option"

record DerivativeTransaction =
  deriv_id :: int
  deriv_customer_oid :: string
  deriv_type :: string
  deriv_side :: string
  deriv_asset :: string
  deriv_strike_price :: real
  deriv_premium :: real
  deriv_expiration_date :: string
  deriv_execution_date :: string
  deriv_strategy :: "string option"
  deriv_status :: string
  deriv_counterparty :: "string option"

text \<open>The contents of the database: the rows of each table in insertion order.\<close>

record store =
  user_table :: "User list"
  asset_table :: "Asset list"
  transaction_table :: "Transaction list"
  spending_table :: "Spending list"
  institution_table :: "Institution list"
  bankaccount_table :: "BankAccount list"
  derivativetransaction_table :: "DerivativeTransaction list"

section \<open>The database session\<close>

text \<open>A session holds the committed contents of the database, the contents as its open
  transaction sees them, and the statements it has issued. Changes reach the committed
  contents at \<open>commit\<close> only, and \<open>rollback\<close> discards them. Every call on the session
  except \<open>rollback\<close> can raise: the parameter \<open>flt\<close> says for each position in the
  sequence of issued statements whether the statement issued there raises.\<close>

datatype statement = Select string | Insert string | Delete string | Commit | Rollback

record session =
  database :: store
  pending :: store
  issued :: "statement list"

type_synonym faults = "nat \<Rightarrow> bool"

type_synonym 'a action = "session \<Rightarrow> (exn + 'a) \<times> session"

definition no_faults :: faults where
  "no_faults n = False"

definition return_value :: "'a \<Rightarrow> 'a action" where
  "return_value a ses = (Inr a, ses)"

definition raise :: "exn \<Rightarrow> 'a action" where
  "raise e ses = (Inl e, ses)"

definition and_then :: "'a action \<Rightarrow> ('a \<Rightarrow> 'b action) \<Rightarrow> 'b action" where
  "and_then m f ses =
     (case m ses of
        (Inl e, ses') \<Rightarrow> (Inl e, ses')
      | (Inr a, ses') \<Rightarrow> f a ses')"

definition issue :: "faults \<Rightarrow> statement \<Rightarrow> unit action" where
  "issue flt st ses =
     (let ses' = ses\<lparr>issued := issued ses @ [st]\<rparr>
      in if flt (length (issued ses)) then (Inl (DatabaseError ''statement failed''), ses')
         else (Inr (), ses'))"

text \<open>\<open>session.exec(select(T).where(cond)).first()\<close> and \<open>.all()\<close> on the table
  \<open>rows\<close>.\<close>

definition exec_first ::
    "faults \<Rightarrow> string \<Rightarrow> (store \<Rightarrow> 'r list) \<Rightarrow> ('r \<Rightarrow> bool) \<Rightarrow> 'r option action" where
  "exec_first flt table rows cond =
     and_then (issue flt (Select table))
       (\<lambda>_ ses. (Inr (find cond (rows (pending ses))), ses))"

definition exec_all ::
    "faults \<Rightarrow> string \<Rightarrow> (store \<Rightarrow> 'r list) \<Rightarrow> ('r \<Rightarrow> bool) \<Rightarrow> 'r list action" where
  "exec_all flt table rows cond =
     and_then (issue flt (Select table))
       (\<lambda>_ ses. (Inr (filter cond (rows (pending ses))), ses))"

text \<open>\<open>session.delete(obj)\<close> and \<open>session.add(obj)\<close>: the change \<open>f\<close> of the table is
  made in the open transaction.\<close>

definition session_delete :: "faults \<Rightarrow> string \<Rightarrow> (store \<Rightarrow> store) \<Rightarrow> unit action" where
  "session_delete flt table f =
     and_then (issue flt (Delete table))
       (\<lambda>_ ses. (Inr (), ses\<lparr>pending := f (pending ses)\<rparr>))"

definition session_add :: "faults \<Rightarrow> string \<Rightarrow> (store \<Rightarrow> store) \<Rightarrow> unit action" where
  "session_add flt table f =
     and_then (issue flt (Insert table))
       (\<lambda>_ ses. (Inr (), ses\<lparr>pending := f (pending ses)\<rparr>))"

definition session_commit :: "faults \<Rightarrow> unit action" where
  "session_commit flt =
     and_then (issue flt Commit)
       (\<lambda>_ ses. (Inr (), ses\<lparr>database := pending ses\<rparr>))"

definition session_rollback :: "session \<Rightarrow> session" where
  "session_rollback ses = ses\<lparr>pending := database ses, issued := issued ses @ [Rollback]\<rparr>"

text \<open>\<open>get_db_session\<close>: a request runs its handler on a new session and closes the
  session on every exit path; what remains is the response or the exception, the
  committed contents of the database and the statements that were issued.\<close>

definition get_session :: "store \<Rightarrow> session" where
  "get_session db = \<lparr>database = db, pending = db, issued = []\<rparr>"

definition request :: "'a action \<Rightarrow> store \<Rightarrow> (exn + 'a) \<times> store \<times> statement list" where
  "request handler db =
     (case handler (get_session db) of (r, ses) \<Rightarrow> (r, database ses, issued ses))"

text \<open>The error taxonomy of the specification is the status code of the
  \<open>HTTPException\<close>; an exception that is not caught becomes status 500.\<close>

fun status_code :: "exn \<Rightarrow> nat" where
  "status_code (HTTPException code detail) = code"
| "status_code (DatabaseError msg) = 500"

definition InvalidArgument :: "exn \<Rightarrow> bool" where
  "InvalidArgument e = (status_code e = 400)"

definition NotFound :: "exn \<Rightarrow> bool" where
  "NotFound e = (status_code e = 404)"

definition Conflict :: "exn \<Rightarrow> bool" where
  "Conflict e = (status_code e = 409)"

section \<open>The handlers of \<open>main.py\<close>\<close>

subsection \<open>Portfolio aggregation\<close>

record user_info =
  info_name :: string
  info_customer_oid :: string

record has_data_flags =
  has_assets :: bool
  has_accounts :: bool
  has_transactions :: bool
  has_spending :: bool
  has_derivatives :: bool

record summary =
  summary_customer_oid :: string
  total_cash_balance :: real
  total_spending :: real
  total_assets :: nat
  total_accounts :: nat
  total_transactions :: nat
  total_spending_categories :: nat
  total_derivative_positions :: nat
  has_data :: has_data_flags

text \<open>The response of \<open>get_user_portfolio\<close>; a bank account is paired with its
  institution, \<open>None\<close> where the source puts \<open>None\<close>.\<close>

record portfolio =
  portfolio_customer_oid :: string
  portfolio_user :: user_info
  portfolio_assets :: "Asset list"
  portfolio_bank_accounts :: "(BankAccount \<times> Institution option) list"
  portfolio_transactions :: "Transaction list"
  portfolio_spending :: "Spending list"
  portfolio_derivative_transactions :: "DerivativeTransaction list"
  portfolio_summary :: summary

text \<open>The dictionary \<open>{inst.id: inst for inst in inst_results}\<close>.\<close>

definition institution_dict :: "Institution list \<Rightarrow> (int \<rightharpoonup> Institution)" where
  "institution_dict inst_results = foldl (\<lambda>d inst. d(inst_id inst \<mapsto> inst)) Map.empty inst_results"

definition get_institutions :: "faults \<Rightarrow> BankAccount list \<Rightarrow> (int \<rightharpoonup> Institution) action" where
  "get_institutions flt bank_accounts =
     (let institution_ids = set (map account_institution_id bank_accounts)
      in if institution_ids \<noteq> {}
         then and_then
                (exec_all flt ''institution'' institution_table
                   (\<lambda>inst. inst_id inst \<in> institution_ids))
                (\<lambda>inst_results. return_value (institution_dict inst_results))
         else return_value Map.empty)"

definition build_portfolio ::
    "string \<Rightarrow> User \<Rightarrow> Asset list \<Rightarrow> Transaction list \<Rightarrow> Spending list \<Rightarrow> BankAccount list \<Rightarrow>
     DerivativeTransaction list \<Rightarrow> (int \<rightharpoonup> Institution) \<Rightarrow> portfolio" where
  "build_portfolio customer_oid user assets transactions spending bank_accounts
       derivative_transactions institutions =
     (let total_cash = sum_list (map account_balance bank_accounts);
          total_spending = sum_list (map spending_amount spending)
      in \<lparr>portfolio_customer_oid = customer_oid,
          portfolio_user =
            \<lparr>info_name = user_name user, info_customer_oid = user_customer_oid user\<rparr>,
          portfolio_assets = assets,
          portfolio_bank_accounts =
            map (\<lambda>account. (account, institutions (account_institution_id account))) bank_accounts,
          portfolio_transactions = transactions,
          portfolio_spending = spending,
          portfolio_derivative_transactions = derivative_transactions,
          portfolio_summary =
            \<lparr>summary_customer_oid = customer_oid,
             total_cash_balance = total_cash,
             total_spending = total_spending,
             total_assets = length assets,
             total_accounts = length bank_accounts,
             total_transactions = length transactions,
             total_spending_categories = card (set (map spending_category spending)),
             total_derivative_positions = length derivative_transactions,
             has_data =
               \<lparr>has_assets = (length assets > 0),
                has_accounts = (length bank_accounts > 0),
                has_transactions = (length transactions > 0),
                has_spending = (length spending > 0),
                has_derivatives = (length derivative_transactions > 0)\<rparr>\<rparr>\<rparr>)"

definition quoted :: "string \<Rightarrow> string" where
  "quoted s = [CHR 0x27] @ s @ [CHR 0x27]"

definition get_user_portfolio :: "faults \<Rightarrow> string \<Rightarrow> portfolio action" where
  "get_user_portfolio flt oid =
     (case validate_customer_oid oid of
        Inl e \<Rightarrow> raise e
      | Inr customer_oid \<Rightarrow>
          and_then
            (exec_first flt ''user'' user_table (\<lambda>u. user_customer_oid u = customer_oid))
            (\<lambda>found. case found of
               None \<Rightarrow>
                 raise (HTTPException 404
                   (''User with CustomerOID '' @ quoted customer_oid @ '' not found''))
             | Some user \<Rightarrow>
                 and_then (exec_all flt ''asset'' asset_table
                   (\<lambda>r. asset_customer_oid r = customer_oid)) (\<lambda>assets.
                 and_then (exec_all flt ''transaction'' transaction_table
                   (\<lambda>r. transaction_customer_oid r = customer_oid)) (\<lambda>transactions.
                 and_then (exec_all flt ''spending'' spending_table
                   (\<lambda>r. spending_customer_oid r = customer_oid)) (\<lambda>spending.
                 and_then (exec_all flt ''bankaccount'' bankaccount_table
                   (\<lambda>r. account_customer_oid r = customer_oid)) (\<lambda>bank_accounts.
                 and_then (exec_all flt ''derivativetransaction'' derivativetransaction_table
                   (\<lambda>r. deriv_customer_oid r = customer_oid)) (\<lambda>derivative_transactions.
                 and_then (get_institutions flt bank_accounts) (\<lambda>institutions.
                 return_value
                   (build_portfolio customer_oid user assets transactions spending
                      bank_accounts derivative_transactions institutions)))))))))"

subsection \<open>Existence check\<close>

record exists_response =
  exists_customer_oid :: string
  exists_flag :: bool
  exists_name :: "string option"

definition check_customer_exists :: "faults \<Rightarrow> string \<Rightarrow> exists_response action" where
  "check_customer_exists flt oid =
     (case validate_customer_oid oid of
        Inl e \<Rightarrow> raise e
      | Inr customer_oid \<Rightarrow>
          and_then
            (exec_first flt ''user'' user_table (\<lambda>u. user_customer_oid u = customer_oid))
            (\<lambda>user. return_value
               \<lparr>exists_customer_oid = customer_oid,
                exists_flag = (user \<noteq> None),
                exists_name = map_option user_name user\<rparr>))"

subsection \<open>Registration and deletion\<close>

text \<open>The clauses \<open>except HTTPException: raise\<close> and \<open>except Exception as e\<close>: an
  \<open>HTTPException\<close> passes; any other exception rolls the session back and becomes
  status 500.\<close>

definition except_exception :: "string \<Rightarrow> 'a action \<Rightarrow> 'a action" where
  "except_exception detail body ses =
     (case body ses of
        (Inl (DatabaseError msg), ses') \<Rightarrow>
          (Inl (HTTPException 500 (detail @ msg)), session_rollback ses')
      | (r, ses') \<Rightarrow> (r, ses'))"

record UserRegistrationRequest =
  request_name :: string
  request_customer_oid :: "string option"

record UserRegistrationResponse =
  response_customer_oid :: string
  response_name :: string
  response_message :: string

text \<open>The primary key the database gives a new row: one more than the largest in the
  table.\<close>

definition next_id :: "int list \<Rightarrow> int" where
  "next_id ids = fold max ids 0 + 1"

definition add_user :: "string \<Rightarrow> string \<Rightarrow> store \<Rightarrow> store" where
  "add_user customer_oid name st =
     st\<lparr>user_table := user_table st @
          [\<lparr>user_id = next_id (map user_id (user_table st)),
            user_customer_oid = customer_oid, user_name = name\<rparr>]\<rparr>"

text \<open>The first statement of \<open>register_customer\<close>: \<open>if user_data.customer_oid\<close> holds
  for a string that is present and not empty.\<close>

definition choose_customer_oid :: "128 word \<Rightarrow> string option \<Rightarrow> string action" where
  "choose_customer_oid rnd given =
     (case given of
        None \<Rightarrow> return_value (uuid_str (uuid4 rnd))
      | Some c \<Rightarrow>
          if c \<noteq> []
          then (case validate_customer_oid c of Inl e \<Rightarrow> raise e | Inr v \<Rightarrow> return_value v)
          else return_value (uuid_str (uuid4 rnd)))"

definition register_customer ::
    "faults \<Rightarrow> 128 word \<Rightarrow> UserRegistrationRequest \<Rightarrow> UserRegistrationResponse action" where
  "register_customer flt rnd user_data =
     except_exception ''Failed to register customer: ''
       (and_then (choose_customer_oid rnd (request_customer_oid user_data)) (\<lambda>customer_oid.
        and_then
          (exec_first flt ''user'' user_table (\<lambda>u. user_customer_oid u = customer_oid))
          (\<lambda>existing_user. case existing_user of
             Some u \<Rightarrow>
               raise (HTTPException 409
                 (''Customer with CustomerOID '' @ quoted customer_oid @ '' already exists''))
           | None \<Rightarrow>
               if request_name user_data = [] \<or> length (strip (request_name user_data)) < 2
               then raise (HTTPException 400 ''Name must be at least 2 characters long'')
               else
                 and_then (session_add flt ''user''
                   (add_user customer_oid (strip (request_name user_data)))) (\<lambda>_.
                 and_then (session_commit flt) (\<lambda>_.
                 and_then (issue flt (Select ''user'')) (\<lambda>_.
                 return_value
                   \<lparr>response_customer_oid = customer_oid,
                    response_name = strip (request_name user_data),
                    response_message = ''Customer registered successfully''\<rparr>))))))"

text \<open>The loops \<open>for row in rows: session.delete(row)\<close>; \<open>del row\<close> removes from its
  table the row with the primary key of \<open>row\<close>.\<close>

fun delete_each :: "faults \<Rightarrow> string \<Rightarrow> ('r \<Rightarrow> store \<Rightarrow> store) \<Rightarrow> 'r list \<Rightarrow> unit action" where
  "delete_each flt table del [] = return_value ()"
| "delete_each flt table del (row # rows) =
     and_then (session_delete flt table (del row)) (\<lambda>_. delete_each flt table del rows)"

definition del_asset :: "Asset \<Rightarrow> store \<Rightarrow> store" where
  "del_asset row st = st\<lparr>asset_table := filter (\<lambda>r. asset_id r \<noteq> asset_id row) (asset_table st)\<rparr>"

definition del_transaction :: "Transaction \<Rightarrow> store \<Rightarrow> store" where
  "del_transaction row st =
     st\<lparr>transaction_table :=
          filter (\<lambda>r. transaction_id r \<noteq> transaction_id row) (transaction_table st)\<rparr>"

definition del_spending :: "Spending \<Rightarrow> store \<Rightarrow> store" where
  "del_spending row st =
     st\<lparr>spending_table := filter (\<lambda>r. spending_id r \<noteq> spending_id row) (spending_table st)\<rparr>"

definition del_account :: "BankAccount \<Rightarrow> store \<Rightarrow> store" where
  "del_account row st =
     st\<lparr>bankaccount_table :=
          filter (\<lambda>r. account_id r \<noteq> account_id row) (bankaccount_table st)\<rparr>"

definition del_derivative :: "DerivativeTransaction \<Rightarrow> store \<Rightarrow> store" where
  "del_derivative row st =
     st\<lparr>derivativetransaction_table :=
          filter (\<lambda>r. deriv_id r \<noteq> deriv_id row) (derivativetransaction_table st)\<rparr>"

definition del_user :: "User \<Rightarrow> store \<Rightarrow> store" where
  "del_user row st = st\<lparr>user_table := filter (\<lambda>r. user_id r \<noteq> user_id row) (user_table st)\<rparr>"

record delete_response =
  deleted_customer_oid :: string
  deleted_message :: string

definition delete_customer :: "faults \<Rightarrow> string \<Rightarrow> delete_response action" where
  "delete_customer flt oid =
     (case validate_customer_oid oid of
        Inl e \<Rightarrow> raise e
      | Inr customer_oid \<Rightarrow>
          except_exception ''Failed to delete customer: ''
            (and_then
               (exec_first flt ''user'' user_table (\<lambda>u. user_customer_oid u = customer_oid))
               (\<lambda>found. case found of
                  None \<Rightarrow>
                    raise (HTTPException 404
                      (''Customer with CustomerOID '' @ quoted customer_oid @ '' not found''))
                | Some user \<Rightarrow>
                    and_then (exec_all flt ''asset'' asset_table
                      (\<lambda>r. asset_customer_oid r = customer_oid)) (\<lambda>assets.
                    and_then (delete_each flt ''asset'' del_asset assets) (\<lambda>_.
                    and_then (exec_all flt ''transaction'' transaction_table
                      (\<lambda>r. transaction_customer_oid r = customer_oid)) (\<lambda>transactions.
                    and_then (delete_each flt ''transaction'' del_transaction transactions) (\<lambda>_.
                    and_then (exec_all flt ''spending'' spending_table
                      (\<lambda>r. spending_customer_oid r = customer_oid)) (\<lambda>spending.
                    and_then (delete_each flt ''spending'' del_spending spending) (\<lambda>_.
                    and_then (exec_all flt ''bankaccount'' bankaccount_table
                      (\<lambda>r. account_customer_oid r = customer_oid)) (\<lambda>bank_accounts.
                    and_then (delete_each flt ''bankaccount'' del_account bank_accounts) (\<lambda>_.
                    and_then (exec_all flt ''derivativetransaction'' derivativetransaction_table
                      (\<lambda>r. deriv_customer_oid r = customer_oid)) (\<lambda>derivatives.
                    and_then (delete_each flt ''derivativetransaction'' del_derivative
                      derivatives) (\<lambda>_.
                    and_then (session_delete flt ''user'' (del_user user)) (\<lambda>_.
                    and_then (session_commit flt) (\<lambda>_.
                    return_value
                      \<lparr>deleted_customer_oid = customer_oid,
                       deleted_message =
                         ''Customer and all associated data deleted successfully''\<rparr>)))))))))))))))"

text \<open>The dictionary \<open>get_institutions\<close> returns when its statement does not fail.\<close>

definition institutions_for :: "store \<Rightarrow> BankAccount list \<Rightarrow> (int \<rightharpoonup> Institution)" where
  "institutions_for db bank_accounts =
     (if bank_accounts = [] then Map.empty
      else institution_dict
             (filter (\<lambda>inst. inst_id inst \<in> set (map account_institution_id bank_accounts))
                (institution_table db)))"

section \<open>Constraints of the schema and the effect of a deletion\<close>

text \<open>The constraints that \<open>db.py\<close> declares on the tables of a customer: every
  \<open>id\<close> is a primary key, and \<open>User.customer_oid\<close> is unique.\<close>

definition schema_constraints :: "store \<Rightarrow> bool" where
  "schema_constraints db =
     (distinct (map user_id (user_table db)) \<and>
      distinct (map user_customer_oid (user_table db)) \<and>
      distinct (map asset_id (asset_table db)) \<and>
      distinct (map transaction_id (transaction_table db)) \<and>
      distinct (map spending_id (spending_table db)) \<and>
      distinct (map account_id (bankaccount_table db)) \<and>
      distinct (map deriv_id (derivativetransaction_table db)))"

text \<open>The store the specification asks of a deletion: every row with the identifier is
  removed from the five dependent tables and from the user table, every other row of
  these tables stays, and the institution table is untouched.\<close>

definition without_customer :: "string \<Rightarrow> store \<Rightarrow> store" where
  "without_customer oid db =
     db\<lparr>user_table := filter (\<lambda>r. user_customer_oid r \<noteq> oid) (user_table db),
        asset_table := filter (\<lambda>r. asset_customer_oid r \<noteq> oid) (asset_table db),
        transaction_table :=
          filter (\<lambda>r. transaction_customer_oid r \<noteq> oid) (transaction_table db),
        spending_table := filter (\<lambda>r. spending_customer_oid r \<noteq> oid) (spending_table db),
        bankaccount_table :=
          filter (\<lambda>r. account_customer_oid r \<noteq> oid) (bankaccount_table db),
        derivativetransaction_table :=
          filter (\<lambda>r. deriv_customer_oid r \<noteq> oid) (derivativetransaction_table db)\<rparr>"

section \<open>Example stores\<close>

text \<open>The store of the example in the specification: one customer, two bank accounts
  that refer to the institutions 1 and 2, of which only institution 1 exists, one
  asset, and two spending records of 100 and 50 in one category.\<close>

definition seed_oid :: string where
  "seed_oid = ''11111111-1111-1111-1111-111111111111''"

definition seeded_store :: store where
  "seeded_store =
     \<lparr>user_table =
        [\<lparr>user_id = 1, user_customer_oid = seed_oid, user_name = ''Seed Customer''\<rparr>],
      asset_table =
        [\<lparr>asset_id = 1, asset_customer_oid = seed_oid, asset_type = ''stock'',
          asset_symbol = ''AAPL'', asset_amount = 10\<rparr>],
      transaction_table = [],
      spending_table =
        [\<lparr>spending_id = 1, spending_customer_oid = seed_oid, spending_category = ''groceries'',
          spending_amount = 100, spending_month = ''2025-01''\<rparr>,
         \<lparr>spending_id = 2, spending_customer_oid = seed_oid, spending_category = ''groceries'',
          spending_amount = 50, spending_month = ''2025-02''\<rparr>],
      institution_table =
        [\<lparr>inst_id = 1, inst_name = ''Global Bank'', inst_type = ''bank'',
          inst_contact_info = Some ''contact@globalbank.com'', inst_internal_code = ''GB001''\<rparr>],
      bankaccount_table =
        [\<lparr>account_id = 1, account_customer_oid = seed_oid, account_institution_id = 1,
          account_balance = 1000, account_currency = ''USD'', account_iban = None\<rparr>,
         \<lparr>account_id = 2, account_customer_oid = seed_oid, account_institution_id = 2,
          account_balance = 500, account_currency = ''USD'', account_iban = None\<rparr>],
      derivativetransaction_table = []\<rparr>"

text \<open>The same store with a second customer that has no rows in any other table.\<close>

definition second_store :: store where
  "second_store =
     seeded_store\<lparr>user_table := user_table seeded_store @
       [\<lparr>user_id = 2, user_customer_oid = ''CUST0002'', user_name = ''Alice Johnson''\<rparr>]\<rparr>"

text \<open>A store with two customers that both have rows in the dependent tables.\<close>

definition two_customer_store :: store where
  "two_customer_store =
     seeded_store
       \<lparr>user_table := user_table seeded_store @
          [\<lparr>user_id = 2, user_customer_oid = ''CUST0002'', user_name = ''Alice Johnson''\<rparr>],
        asset_table := asset_table seeded_store @
          [\<lparr>asset_id = 2, asset_customer_oid = ''CUST0002'', asset_type = ''bond'',
            asset_symbol = ''US10Y'', asset_amount = 20\<rparr>],
        spending_table :=
          \<lparr>spending_id = 3, spending_customer_oid = ''CUST0002'',
            spending_category = ''travel'', spending_amount = 70, spending_month = ''2025-01''\<rparr> #
          spending_table seeded_store,
        bankaccount_table := bankaccount_table seeded_store @
          [\<lparr>account_id = 3, account_customer_oid = ''CUST0002'', account_institution_id = 1,
            account_balance = 250, account_currency = ''EUR'', account_iban = None\<rparr>]\<rparr>"

section \<open>Failures of statements\<close>

text \<open>Some statement of the issued sequence raised: \<open>flt\<close> holds at a position of the
  sequence.\<close>

definition some_statement_failed :: "faults \<Rightarrow> statement list \<Rightarrow> bool" where
  "some_statement_failed flt stmts = list_ex flt [0..<length stmts]"

text \<open>A result that is not an exception of the database: a value or an
  \<open>HTTPException\<close>.\<close>

fun passing :: "exn + 'a \<Rightarrow> bool" where
  "passing (Inl (DatabaseError msg)) = False"
| "passing r = True"

text \<open>Two invariants of actions, used to follow a handler through every pattern of
  failures. An action that \<open>keeps\<close> never changes the committed contents, and it ends
  without a failed statement when it started without one and its result is not a
  database exception. An \<open>atomic\<close> action may change the committed contents only when
  it returns a value.\<close>

definition keeps :: "faults \<Rightarrow> 'a action \<Rightarrow> bool" where
  "keeps flt m =
     (\<forall>ses r ses'. m ses = (r, ses') \<longrightarrow>
        database ses' = database ses \<and>
        (passing r \<and> \<not> some_statement_failed flt (issued ses) \<longrightarrow>
           \<not> some_statement_failed flt (issued ses')))"

definition atomic :: "faults \<Rightarrow> 'a action \<Rightarrow> bool" where
  "atomic flt m =
     (\<forall>ses r ses'. m ses = (r, ses') \<longrightarrow>
        (isl r \<longrightarrow> database ses' = database ses) \<and>
        (passing r \<and> \<not> some_statement_failed flt (issued ses) \<longrightarrow>
           \<not> some_statement_failed flt (issued ses')))"

text \<open>The pattern of failures in which the statement at position 5 raises; in the
  deletion of the seeded customer this is the deletion of the first spending record,
  after the asset has been deleted in the open transaction.\<close>

definition spending_delete_fails :: faults where
  "spending_delete_fails n = (n = 5)"

section \<open>Properties of the validator\<close>

subsection \<open>Strings in the canonical form are parsed\<close>

lemma replace_empty_absent:
  "old \<noteq> [] \<Longrightarrow> hd old \<notin> set s \<Longrightarrow> replace_empty old s = s"
proof (induction s)
  case Nil
  then show ?case by simp
next
  case (Cons c cs)
  have "take (length old) (c # cs) \<noteq> old"
  proof
    assume eq: "take (length old) (c # cs) = old"
    from Cons.prems(1) obtain x xs where old: "old = x # xs" by (cases old) auto
    with eq have "x = c" by simp
    with old Cons.prems(2) show False by simp
  qed
  with Cons show ?case by simp
qed

lemma replace_empty_single: "replace_empty [x] s = filter (\<lambda>c. c \<noteq> x) s"
  by (induction s) auto

lemma strip_chars_absent:
  assumes "list_all (\<lambda>c. c \<notin> set chars) s"
  shows "strip_chars chars s = s"
proof -
  have d: "dropWhile (\<lambda>c. c \<in> set chars) xs = xs" if "list_all (\<lambda>c. c \<notin> set chars) xs" for xs
    using that by (cases xs) auto
  have "list_all (\<lambda>c. c \<notin> set chars) (rev s)"
    using assms by (simp add: list_all_iff)
  with d[OF assms] d[of "rev s"] show ?thesis
    by (simp add: strip_chars_def)
qed

lemma hex_digit_facts:
  assumes "hex_digit c"
  shows "\<not> int_space c" and "c \<noteq> CHR ''+''" and "c \<noteq> CHR ''-''" and "c \<noteq> CHR ''x''"
    and "c \<noteq> CHR ''X''" and "c \<noteq> CHR ''_''" and "c \<noteq> CHR ''u''" and "c \<noteq> CHR ''{''"
    and "c \<noteq> CHR ''}''" and "hex_or_underscore c"
  using assms
  by (auto simp: hex_digit_def digit_value_def int_space_def hex_or_underscore_def Let_def
      split: if_splits)

lemma hex_value_bound:
  "0 \<le> a \<Longrightarrow> list_all hex_digit h \<Longrightarrow>
   0 \<le> foldl (\<lambda>acc c. 16 * acc + int (digit_value c)) a h \<and>
   foldl (\<lambda>acc c. 16 * acc + int (digit_value c)) a h < (a + 1) * 16 ^ length h"
proof (induction h arbitrary: a)
  case Nil
  then show ?case by simp
next
  case (Cons c h)
  let ?a = "16 * a + int (digit_value c)"
  from Cons.prems have "hex_digit c" and h: "list_all hex_digit h"
    by simp_all
  then have d: "digit_value c < 16" by (simp add: hex_digit_def)
  from Cons.prems(1) have a: "0 \<le> ?a" by simp
  from Cons.IH[OF a h] have lo: "0 \<le> foldl (\<lambda>acc c. 16 * acc + int (digit_value c)) ?a h"
    and hi: "foldl (\<lambda>acc c. 16 * acc + int (digit_value c)) ?a h < (?a + 1) * 16 ^ length h"
    by simp_all
  from d have "?a + 1 \<le> (a + 1) * 16" by simp
  then have "(?a + 1) * 16 ^ length h \<le> ((a + 1) * 16) * 16 ^ length h"
    by (rule mult_right_mono) simp
  from less_le_trans[OF hi this]
  have "foldl (\<lambda>acc c. 16 * acc + int (digit_value c)) ?a h < (a + 1) * 16 * 16 ^ length h" .
  with lo show ?case by (simp add: algebra_simps)
qed

lemma scan_hex_digits:
  assumes "list_all hex_digit h" and "h \<noteq> []"
  shows "scan_hex h = Some (foldl (\<lambda>acc c. 16 * acc + int (digit_value c)) 0 h, [])"
proof -
  from assms(1) have all: "\<forall>c\<in>set h. hex_or_underscore c" and nus: "\<forall>c\<in>set h. c \<noteq> CHR ''_''"
    by (auto simp: list_all_iff hex_digit_facts)
  from all have run: "takeWhile hex_or_underscore h = h" and rest: "dropWhile hex_or_underscore h = []"
    by simp_all
  have nd: "\<not> double_underscore xs" if "\<forall>c\<in>set xs. c \<noteq> CHR ''_''" for xs
    using that by (induction xs rule: double_underscore.induct) auto
  from nus assms(2) have l: "last h \<noteq> CHR ''_''" by simp
  from nus have f: "filter (\<lambda>c. c \<noteq> CHR ''_'') h = h" by simp
  show ?thesis
    unfolding scan_hex_def Let_def run rest f using nd[OF nus] l assms(2) by simp
qed

lemma int_base16_digits:
  assumes "list_all hex_digit h" and "h \<noteq> []"
  shows "\<exists>n. int_base16 h = Some n \<and> 0 \<le> n \<and> n < 16 ^ length h"
proof -
  from assms obtain c cs where h: "h = c # cs" by (cases h) auto
  with assms(1) have c: "hex_digit c" by simp
  have sp: "dropWhile int_space h = h" using h hex_digit_facts(1)[OF c] by simp
  have sg: "skip_sign h = (1, h)"
    using h hex_digit_facts(2,3)[OF c] by (simp add: skip_sign_def)
  have px: "skip_prefix h = h"
  proof (cases cs)
    case Nil
    with h show ?thesis by (simp add: skip_prefix_def)
  next
    case (Cons b cs')
    with h assms(1) have "hex_digit b" by simp
    from hex_digit_facts(4,5)[OF this] h Cons show ?thesis by (simp add: skip_prefix_def)
  qed
  have us: "take 1 h \<noteq> ''_''" using h hex_digit_facts(6)[OF c] by simp
  from hex_value_bound[of 0 h] assms(1)
  have "0 \<le> foldl (\<lambda>acc c. 16 * acc + int (digit_value c)) 0 h"
    and "foldl (\<lambda>acc c. 16 * acc + int (digit_value c)) 0 h < 16 ^ length h" by simp_all
  then show ?thesis
    using us by (simp add: int_base16_def sp sg px scan_hex_digits[OF assms])
qed

lemma uuid_UUID_digits:
  assumes "list_all (\<lambda>c. hex_digit c \<or> c = CHR ''-'') s"
    and "length (filter (\<lambda>c. c \<noteq> CHR ''-'') s) = 32"
  shows "uuid_UUID s \<noteq> None"
proof -
  have ch: "c \<noteq> CHR ''u'' \<and> c \<noteq> CHR ''{'' \<and> c \<noteq> CHR ''}''" if "c \<in> set s" for c
  proof -
    from that assms(1) have "hex_digit c \<or> c = CHR ''-''" by (simp add: list_all_iff)
    then show ?thesis
    proof
      assume "hex_digit c"
      from hex_digit_facts(7,8,9)[OF this] show ?thesis by simp
    next
      assume "c = CHR ''-''"
      then show ?thesis by simp
    qed
  qed
  have nu: "CHR ''u'' \<notin> set s" using ch by blast
  have nb: "list_all (\<lambda>c. c \<notin> set ''{}'') s"
    unfolding list_all_iff using ch by simp
  have r1: "replace_empty ''urn:'' s = s" using nu by (simp add: replace_empty_absent)
  have r2: "replace_empty ''uuid:'' s = s" using nu by (simp add: replace_empty_absent)
  have r3: "strip_chars ''{}'' s = s" using nb by (rule strip_chars_absent)
  let ?h = "filter (\<lambda>c. c \<noteq> CHR ''-'') s"
  have hx: "list_all hex_digit ?h" using assms(1) by (auto simp: list_all_iff)
  from assms(2) have ne: "?h \<noteq> []" by auto
  from int_base16_digits[OF hx ne] assms(2)
  obtain n where n: "int_base16 ?h = Some n" "0 \<le> n" "n < 16 ^ 32" by auto
  then have "n < 2 ^ 128" by simp
  with n show ?thesis
    by (simp add: uuid_UUID_def r1 r2 r3 replace_empty_single assms(2))
qed

lemma canonical_uuid_parts:
  assumes "canonical_uuid s"
  shows "list_all (\<lambda>c. hex_digit c \<or> c = CHR ''-'') s"
    and "length (filter (\<lambda>c. c \<noteq> CHR ''-'') s) = 32"
proof -
  define a b c d e where "a = take 8 s" and "b = take 4 (drop 9 s)"
    and "c = take 4 (drop 14 s)" and "d = take 4 (drop 19 s)" and "e = drop 24 s"
  define t1 t2 t3 where "t1 = drop 9 s" and "t2 = drop 14 s" and "t3 = drop 19 s"
  note parts = a_def b_def c_def d_def e_def t1_def t2_def t3_def
  from assms have len: "length s = 36"
    and hy: "s ! 8 = CHR ''-''" "s ! 13 = CHR ''-''" "s ! 18 = CHR ''-''" "s ! 23 = CHR ''-''"
    and hx: "list_all hex_digit a" "list_all hex_digit b" "list_all hex_digit c"
      "list_all hex_digit d" "list_all hex_digit e"
    by (simp_all add: canonical_uuid_def parts)
  have lens: "length a = 8" "length b = 4" "length c = 4" "length d = 4" "length e = 12"
    using len by (simp_all add: parts)
  have s1: "a @ CHR ''-'' # t1 = s"
    using Cons_nth_drop_Suc[of 8 s] len hy(1) by (simp add: parts)
  have s2: "b @ CHR ''-'' # t2 = t1"
    using Cons_nth_drop_Suc[of 13 s] append_take_drop_id[of 4 "drop 9 s"] len hy(2)
    by (simp add: parts)
  have s3: "c @ CHR ''-'' # t3 = t2"
    using Cons_nth_drop_Suc[of 18 s] append_take_drop_id[of 4 "drop 14 s"] len hy(3)
    by (simp add: parts)
  have s4: "d @ CHR ''-'' # e = t3"
    using Cons_nth_drop_Suc[of 23 s] append_take_drop_id[of 4 "drop 19 s"] len hy(4)
    by (simp add: parts)
  have dec: "s = a @ CHR ''-'' # b @ CHR ''-'' # c @ CHR ''-'' # d @ CHR ''-'' # e"
    unfolding s4 s3 s2 by (rule s1[symmetric])
  have nh: "filter (\<lambda>c. c \<noteq> CHR ''-'') xs = xs" if "list_all hex_digit xs" for xs
    using that hex_digit_facts(3) by (auto simp: list_all_iff filter_id_conv)
  have ex: "list_all (\<lambda>c. hex_digit c \<or> c = CHR ''-'') xs" if "list_all hex_digit xs" for xs
    using that by (auto simp: list_all_iff)
  show "list_all (\<lambda>c. hex_digit c \<or> c = CHR ''-'') s"
    unfolding dec by (simp add: ex hx)
  have "filter (\<lambda>c. c \<noteq> CHR ''-'') s = a @ b @ c @ d @ e"
    unfolding dec by (simp add: nh hx)
  then show "length (filter (\<lambda>c. c \<noteq> CHR ''-'') s) = 32"
    using lens by simp
qed

lemma canonical_uuid_parses: "canonical_uuid s \<Longrightarrow> uuid_UUID s \<noteq> None"
  using canonical_uuid_parts uuid_UUID_digits by blast

subsection \<open>Acceptance and rejection\<close>

lemma validate_status:
  "validate_customer_oid s = Inl e \<Longrightarrow> InvalidArgument e"
  by (auto simp: validate_customer_oid_def InvalidArgument_def split: if_splits option.splits)

lemma validate_unchanged:
  "validate_customer_oid s = Inr v \<Longrightarrow> v = s"
  by (auto simp: validate_customer_oid_def split: if_splits option.splits)

lemma canonical_uuid_valid: "canonical_uuid s \<Longrightarrow> validate_customer_oid s = Inr s"
proof -
  assume c: "canonical_uuid s"
  then have "length s = 36" by (simp add: canonical_uuid_def)
  then have ne: "s \<noteq> []" by auto
  from canonical_uuid_parses[OF c] obtain i where "uuid_UUID s = Some i" by auto
  with ne show ?thesis by (simp add: validate_customer_oid_def)
qed

lemma re_match_oid_forms:
  "re_match_oid s = (legacy_code s \<or> legacy_code_with_line_feed s)"
proof
  assume m: "re_match_oid s"
  then have len: "8 \<le> length (takeWhile oid_char s)" "length (takeWhile oid_char s) \<le> 36"
    and rest: "dropWhile oid_char s = [] \<or> dropWhile oid_char s = [CHR 0x0A]"
    by (simp_all add: re_match_oid_def Let_def)
  from rest show "legacy_code s \<or> legacy_code_with_line_feed s"
  proof
    assume "dropWhile oid_char s = []"
    then have a: "\<forall>c\<in>set s. oid_char c" by (simp add: dropWhile_eq_Nil_conv)
    then have "takeWhile oid_char s = s" by simp
    with len a show ?thesis by (simp add: legacy_code_def list_all_iff)
  next
    assume r: "dropWhile oid_char s = [CHR 0x0A]"
    define run where "run = takeWhile oid_char s"
    have "takeWhile oid_char s @ dropWhile oid_char s = s" by simp
    with r have s: "s = run @ [CHR 0x0A]" by (simp add: run_def)
    have "ends_with_line_feed (run @ [CHR 0x0A])" and "butlast (run @ [CHR 0x0A]) = run"
      by (simp_all add: ends_with_line_feed_def)
    with s have e: "ends_with_line_feed s" and b: "butlast s = takeWhile oid_char s"
      by (simp_all add: run_def)
    have "list_all oid_char (takeWhile oid_char s)"
      by (auto simp: list_all_iff dest: set_takeWhileD)
    with len b have "legacy_code (butlast s)" by (simp add: legacy_code_def)
    with e show ?thesis by (simp add: legacy_code_with_line_feed_def)
  qed
next
  assume "legacy_code s \<or> legacy_code_with_line_feed s"
  then show "re_match_oid s"
  proof
    assume "legacy_code s"
    then have len: "8 \<le> length s" "length s \<le> 36" and a: "\<forall>c\<in>set s. oid_char c"
      by (simp_all add: legacy_code_def list_all_iff)
    from a have tw: "takeWhile oid_char s = s" and dw: "dropWhile oid_char s = []" by simp_all
    show ?thesis unfolding re_match_oid_def Let_def tw dw using len by simp
  next
    assume l: "legacy_code_with_line_feed s"
    define t where "t = butlast s"
    from l have s: "s = t @ [CHR 0x0A]"
      unfolding legacy_code_with_line_feed_def ends_with_line_feed_def t_def
      by (metis append_butlast_last_id)
    from l have len: "8 \<le> length t" "length t \<le> 36" and a: "\<forall>c\<in>set t. oid_char c"
      by (simp_all add: legacy_code_with_line_feed_def legacy_code_def list_all_iff t_def)
    have nl: "\<not> oid_char (CHR 0x0A)" by (simp add: oid_char_def)
    from a nl have tw: "takeWhile oid_char s = t" and dw: "dropWhile oid_char s = [CHR 0x0A]"
      unfolding s by (simp_all add: takeWhile_append2 dropWhile_append2)
    show ?thesis unfolding re_match_oid_def Let_def tw dw using len by simp
  qed
qed

text \<open>For a string that \<open>uuid.UUID\<close> does not parse and that is not a legacy code
  followed by a line feed, the validator accepts exactly the legacy codes and rejects
  everything else with status 400.\<close>

lemma non_uuid_validation:
  assumes "uuid_UUID s = None" and "\<not> legacy_code_with_line_feed s"
  shows "if legacy_code s then validate_customer_oid s = Inr s
         else (\<exists>e. validate_customer_oid s = Inl e \<and> InvalidArgument e)"
proof (cases "s = []")
  case True
  then show ?thesis
    by (simp add: validate_customer_oid_def legacy_code_def InvalidArgument_def)
next
  case False
  with assms show ?thesis
    by (simp add: validate_customer_oid_def InvalidArgument_def re_match_oid_forms)
qed

text \<open>Claim C1 says that a string that is not a UUID is accepted when it has 8 to 36
  characters from \<open>[A-Z0-9-]\<close> and rejected with status 400 otherwise. The validator
  does not do this: the nine characters \<open>ABCDEFGH\<close> and a line feed are not parsed as
  a UUID, are not in the canonical form, contain a character outside \<open>[A-Z0-9-]\<close>, and
  are accepted and returned unchanged, because \<open>$\<close> in the pattern of line 46 also
  matches before a final line feed.\<close>

theorem line_feed_accepted:
  "uuid_UUID (''ABCDEFGH'' @ [CHR 0x0A]) = None \<and>
   \<not> canonical_uuid (''ABCDEFGH'' @ [CHR 0x0A]) \<and>
   \<not> legacy_code (''ABCDEFGH'' @ [CHR 0x0A]) \<and>
   validate_customer_oid (''ABCDEFGH'' @ [CHR 0x0A]) = Inr (''ABCDEFGH'' @ [CHR 0x0A])"
  by code_simp

text \<open>Claim C2. Every string in the canonical hyphenated 8-4-4-4-12 form of a UUID, in
  either letter case, is accepted by the validator, which returns exactly the original
  string.\<close>

theorem canonical_uuid_accepted:
  "canonical_uuid s \<Longrightarrow> validate_customer_oid s = Inr s"
  by (rule canonical_uuid_valid)

theorem canonical_uuid_accepted_witness:
  "canonical_uuid ''550E8400-e29b-41d4-A716-44665544000f'' \<and>
   validate_customer_oid ''550E8400-e29b-41d4-A716-44665544000f'' =
     Inr ''550E8400-e29b-41d4-A716-44665544000f''"
proof -
  have c: "canonical_uuid ''550E8400-e29b-41d4-A716-44665544000f''" by code_simp
  from c canonical_uuid_accepted[OF c] show ?thesis by (rule conjI)
qed

text \<open>Claim C10. There are strings that are neither in the canonical hyphenated form
  nor made of 8 to 36 characters from \<open>[A-Z0-9-]\<close> and that the validator accepts
  unchanged: 32 lowercase hexadecimal digits without hyphens, and the
  \<open>urn:uuid:\<close> form.\<close>

theorem general_uuid_parsing_accepted:
  "\<not> canonical_uuid ''0123456789abcdef0123456789abcdef'' \<and>
   \<not> legacy_code ''0123456789abcdef0123456789abcdef'' \<and>
   validate_customer_oid ''0123456789abcdef0123456789abcdef'' =
     Inr ''0123456789abcdef0123456789abcdef'' \<and>
   \<not> canonical_uuid ''urn:uuid:12345678-1234-5678-1234-567812345678'' \<and>
   \<not> legacy_code ''urn:uuid:12345678-1234-5678-1234-567812345678'' \<and>
   validate_customer_oid ''urn:uuid:12345678-1234-5678-1234-567812345678'' =
     Inr ''urn:uuid:12345678-1234-5678-1234-567812345678''"
  by code_simp

section \<open>Properties of the aggregation\<close>

lemmas action_defs =
  raise_def return_value_def and_then_def exec_first_def exec_all_def issue_def
  session_delete_def session_add_def session_commit_def

lemma find_absent:
  "oid \<notin> set (map user_customer_oid us) \<Longrightarrow> find (\<lambda>u. user_customer_oid u = oid) us = None"
  by (induction us) auto

lemma seed_oid_valid: "validate_customer_oid seed_oid = Inr seed_oid"
  unfolding seed_oid_def by code_simp

lemma cust2_valid: "validate_customer_oid ''CUST0002'' = Inr ''CUST0002''"
  by code_simp

lemma invalid_oid_rejected: "isl (validate_customer_oid ''invalid-oid'')"
  by code_simp

text \<open>Claim C3. For every store: aggregation of an identifier that fails validation
  fails with status 400 (InvalidArgument) and issues no statement against the store;
  aggregation of an identifier that passes validation and matches no row of the user
  table fails with status 404 (NotFound), the detail carrying the identifier, after
  the one query for the user.\<close>

theorem aggregation_errors:
  "(validate_customer_oid oid = Inl e \<longrightarrow>
      InvalidArgument e \<and> request (get_user_portfolio flt oid) db = (Inl e, db, [])) \<and>
   (validate_customer_oid oid = Inr oid \<and> oid \<notin> set (map user_customer_oid (user_table db)) \<and>
    \<not> flt 0 \<longrightarrow>
      request (get_user_portfolio flt oid) db =
        (Inl (HTTPException 404 (''User with CustomerOID '' @ quoted oid @ '' not found'')),
         db, [Select ''user'']))"
proof (intro conjI impI)
  assume v: "validate_customer_oid oid = Inl e"
  then show "InvalidArgument e" by (rule validate_status)
  from v show "request (get_user_portfolio flt oid) db = (Inl e, db, [])"
    by (simp add: get_user_portfolio_def request_def get_session_def raise_def)
next
  assume a: "validate_customer_oid oid = Inr oid \<and>
    oid \<notin> set (map user_customer_oid (user_table db)) \<and> \<not> flt 0"
  then have f: "find (\<lambda>u. user_customer_oid u = oid) (user_table db) = None"
    using find_absent by blast
  from a f show "request (get_user_portfolio flt oid) db =
        (Inl (HTTPException 404 (''User with CustomerOID '' @ quoted oid @ '' not found'')),
         db, [Select ''user''])"
    by (simp add: get_user_portfolio_def request_def get_session_def action_defs)
qed

theorem aggregation_errors_witness:
  "(\<exists>e. InvalidArgument e \<and>
        request (get_user_portfolio no_faults ''invalid-oid'') seeded_store =
          (Inl e, seeded_store, [])) \<and>
   request (get_user_portfolio no_faults ''CUST0002'') seeded_store =
     (Inl (HTTPException 404 (''User with CustomerOID '' @ quoted ''CUST0002'' @ '' not found'')),
      seeded_store, [Select ''user''])"
proof -
  from invalid_oid_rejected obtain e where e: "validate_customer_oid ''invalid-oid'' = Inl e"
    by (auto simp: isl_def)
  have a: "''CUST0002'' \<notin> set (map user_customer_oid (user_table seeded_store))"
    by (simp add: seeded_store_def seed_oid_def)
  have f: "\<not> no_faults 0" by (simp add: no_faults_def)
  from aggregation_errors[of "''invalid-oid''" e no_faults seeded_store] e
  have 1: "InvalidArgument e \<and>
      request (get_user_portfolio no_faults ''invalid-oid'') seeded_store =
        (Inl e, seeded_store, [])" by blast
  from aggregation_errors[of "''CUST0002''" e no_faults seeded_store] cust2_valid a f
  have 2: "request (get_user_portfolio no_faults ''CUST0002'') seeded_store =
     (Inl (HTTPException 404 (''User with CustomerOID '' @ quoted ''CUST0002'' @ '' not found'')),
      seeded_store, [Select ''user''])" by blast
  from 1 2 show ?thesis by blast
qed

lemma get_user_portfolio_found:
  assumes "validate_customer_oid oid = Inr oid"
    and "find (\<lambda>u. user_customer_oid u = oid) (user_table db) = Some u"
  shows "\<exists>issued. request (get_user_portfolio no_faults oid) db =
           (Inr (build_portfolio oid u
                   (filter (\<lambda>r. asset_customer_oid r = oid) (asset_table db))
                   (filter (\<lambda>r. transaction_customer_oid r = oid) (transaction_table db))
                   (filter (\<lambda>r. spending_customer_oid r = oid) (spending_table db))
                   (filter (\<lambda>r. account_customer_oid r = oid) (bankaccount_table db))
                   (filter (\<lambda>r. deriv_customer_oid r = oid) (derivativetransaction_table db))
                   (institutions_for db
                      (filter (\<lambda>r. account_customer_oid r = oid) (bankaccount_table db)))),
            db, issued)"
  using assms
  by (simp add: get_user_portfolio_def request_def get_session_def action_defs
      no_faults_def get_institutions_def institutions_for_def Let_def)

text \<open>Claim C4. For a store seeded with the customer
  \<open>11111111-1111-1111-1111-111111111111\<close>, two bank accounts referring to the
  institutions 1 and 2 where only institution 1 exists, one asset, and two spending
  records of 100 and 50 in the same category: aggregation succeeds with total spending
  150, one spending category, the first account carrying institution 1 and the second
  carrying no institution.\<close>

theorem seeded_aggregation:
  assumes "user_table db = [u]" and "user_customer_oid u = seed_oid"
    and "bankaccount_table db = [a1, a2]"
    and "account_customer_oid a1 = seed_oid" and "account_customer_oid a2 = seed_oid"
    and "account_institution_id a1 = 1" and "account_institution_id a2 = 2"
    and "institution_table db = [i1]" and "inst_id i1 = 1"
    and "asset_table db = [h]" and "asset_customer_oid h = seed_oid"
    and "spending_table db = [s1, s2]"
    and "spending_customer_oid s1 = seed_oid" and "spending_customer_oid s2 = seed_oid"
    and "spending_amount s1 = 100" and "spending_amount s2 = 50"
    and "spending_category s1 = spending_category s2"
  shows "\<exists>p issued. request (get_user_portfolio no_faults seed_oid) db = (Inr p, db, issued) \<and>
           total_spending (portfolio_summary p) = 150 \<and>
           total_spending_categories (portfolio_summary p) = 1 \<and>
           portfolio_bank_accounts p = [(a1, Some i1), (a2, None)]"
proof -
  have f: "find (\<lambda>u. user_customer_oid u = seed_oid) (user_table db) = Some u"
    using assms(1,2) by simp
  have sp: "filter (\<lambda>r. spending_customer_oid r = seed_oid) (spending_table db) = [s1, s2]"
    using assms(12,13,14) by simp
  have ac: "filter (\<lambda>r. account_customer_oid r = seed_oid) (bankaccount_table db) = [a1, a2]"
    using assms(3,4,5) by simp
  have ins: "institutions_for db [a1, a2] = [1 \<mapsto> i1]"
    using assms(6,7,8,9) by (simp add: institutions_for_def institution_dict_def)
  from get_user_portfolio_found[OF seed_oid_valid f] obtain issued
    where r: "request (get_user_portfolio no_faults seed_oid) db =
           (Inr (build_portfolio seed_oid u
                   (filter (\<lambda>r. asset_customer_oid r = seed_oid) (asset_table db))
                   (filter (\<lambda>r. transaction_customer_oid r = seed_oid) (transaction_table db))
                   [s1, s2] [a1, a2]
                   (filter (\<lambda>r. deriv_customer_oid r = seed_oid)
                      (derivativetransaction_table db))
                   [1 \<mapsto> i1]),
            db, issued)"
    unfolding sp ac ins by blast
  have cat: "card (set (map spending_category [s1, s2])) = 1"
    using assms(17) by simp
  show ?thesis
    unfolding r using assms(6,7,15,16) cat
    by (simp add: build_portfolio_def)
qed

theorem seeded_aggregation_witness:
  "\<exists>p issued. request (get_user_portfolio no_faults seed_oid) seeded_store =
       (Inr p, seeded_store, issued) \<and>
     total_spending (portfolio_summary p) = 150 \<and>
     total_spending_categories (portfolio_summary p) = 1 \<and>
     portfolio_bank_accounts p =
       [(bankaccount_table seeded_store ! 0, Some (institution_table seeded_store ! 0)),
        (bankaccount_table seeded_store ! 1, None)]"
  using seeded_aggregation[of seeded_store "user_table seeded_store ! 0"
      "bankaccount_table seeded_store ! 0" "bankaccount_table seeded_store ! 1"
      "institution_table seeded_store ! 0" "asset_table seeded_store ! 0"
      "spending_table seeded_store ! 0" "spending_table seeded_store ! 1"]
  by (simp add: seeded_store_def)

text \<open>Claim C5. For every store that has the customer and no row for it in any of the
  five dependent tables: aggregation of its (valid) identifier succeeds, all five flags
  are false, all counts are zero, and total cash and total spending are zero.\<close>

theorem empty_aggregation:
  assumes "validate_customer_oid oid = Inr oid"
    and "oid \<in> set (map user_customer_oid (user_table db))"
    and "filter (\<lambda>r. asset_customer_oid r = oid) (asset_table db) = []"
    and "filter (\<lambda>r. transaction_customer_oid r = oid) (transaction_table db) = []"
    and "filter (\<lambda>r. spending_customer_oid r = oid) (spending_table db) = []"
    and "filter (\<lambda>r. account_customer_oid r = oid) (bankaccount_table db) = []"
    and "filter (\<lambda>r. deriv_customer_oid r = oid) (derivativetransaction_table db) = []"
  shows "\<exists>p issued. request (get_user_portfolio no_faults oid) db = (Inr p, db, issued) \<and>
           has_data (portfolio_summary p) =
             \<lparr>has_assets = False, has_accounts = False, has_transactions = False,
              has_spending = False, has_derivatives = False\<rparr> \<and>
           total_assets (portfolio_summary p) = 0 \<and>
           total_accounts (portfolio_summary p) = 0 \<and>
           total_transactions (portfolio_summary p) = 0 \<and>
           total_spending_categories (portfolio_summary p) = 0 \<and>
           total_derivative_positions (portfolio_summary p) = 0 \<and>
           total_cash_balance (portfolio_summary p) = 0 \<and>
           total_spending (portfolio_summary p) = 0"
proof -
  from assms(2) obtain u where f: "find (\<lambda>u. user_customer_oid u = oid) (user_table db) = Some u"
    by (cases "find (\<lambda>u. user_customer_oid u = oid) (user_table db)")
       (auto simp: find_None_iff)
  from get_user_portfolio_found[OF assms(1) f] obtain issued
    where r: "request (get_user_portfolio no_faults oid) db =
           (Inr (build_portfolio oid u [] [] [] [] [] (institutions_for db [])), db, issued)"
    unfolding assms(3-7) by blast
  show ?thesis
    unfolding r by (simp add: build_portfolio_def)
qed

theorem empty_aggregation_witness:
  "\<exists>p issued. request (get_user_portfolio no_faults ''CUST0002'') second_store =
       (Inr p, second_store, issued) \<and>
     has_data (portfolio_summary p) =
       \<lparr>has_assets = False, has_accounts = False, has_transactions = False,
        has_spending = False, has_derivatives = False\<rparr> \<and>
     total_assets (portfolio_summary p) = 0 \<and>
     total_accounts (portfolio_summary p) = 0 \<and>
     total_transactions (portfolio_summary p) = 0 \<and>
     total_spending_categories (portfolio_summary p) = 0 \<and>
     total_derivative_positions (portfolio_summary p) = 0 \<and>
     total_cash_balance (portfolio_summary p) = 0 \<and>
     total_spending (portfolio_summary p) = 0"
proof -
  have a: "''CUST0002'' \<in> set (map user_customer_oid (user_table second_store))"
    by (simp add: second_store_def)
  have b: "filter (\<lambda>r. asset_customer_oid r = ''CUST0002'') (asset_table second_store) = []"
    "filter (\<lambda>r. transaction_customer_oid r = ''CUST0002'') (transaction_table second_store) = []"
    "filter (\<lambda>r. spending_customer_oid r = ''CUST0002'') (spending_table second_store) = []"
    "filter (\<lambda>r. account_customer_oid r = ''CUST0002'') (bankaccount_table second_store) = []"
    "filter (\<lambda>r. deriv_customer_oid r = ''CUST0002'')
       (derivativetransaction_table second_store) = []"
    by (simp_all add: second_store_def seeded_store_def seed_oid_def)
  from empty_aggregation[OF cust2_valid a b] show ?thesis .
qed

section \<open>Properties of registration\<close>

lemma format_hex_numeral:
  "format_hex (numeral k) n = format_hex (pred_numeral k) (n div 16) @ [hex_char (n mod 16)]"
  by (subst numeral_eq_Suc) (rule format_hex.simps(2))

lemma hex_char_digit: "d < 16 \<Longrightarrow> hex_digit (hex_char d)"
proof -
  assume "d < 16"
  then have "d \<in> set [0..<16]" by simp
  moreover have "list_all (\<lambda>d. hex_digit (hex_char d)) [0..<16]" by code_simp
  ultimately show ?thesis unfolding list_all_iff by blast
qed

lemma format_hex_length: "length (format_hex k n) = k"
  by (induction k arbitrary: n) simp_all

lemma format_hex_digits: "list_all hex_digit (format_hex k n)"
  by (induction k arbitrary: n) (simp_all add: hex_char_digit)

lemma canonical_uuid_append:
  assumes "length a = 8" "length b = 4" "length c = 4" "length d = 4" "length e = 12"
    and "list_all hex_digit a" "list_all hex_digit b" "list_all hex_digit c"
      "list_all hex_digit d" "list_all hex_digit e"
  shows "canonical_uuid (a @ ''-'' @ b @ ''-'' @ c @ ''-'' @ d @ ''-'' @ e)"
  using assms by (simp add: canonical_uuid_def nth_append)

lemma list_all_take: "list_all P xs \<Longrightarrow> list_all P (take n xs)"
  by (auto simp: list_all_iff dest: in_set_takeD)

lemma list_all_drop: "list_all P xs \<Longrightarrow> list_all P (drop n xs)"
  by (auto simp: list_all_iff dest: in_set_dropD)

lemma uuid_str_canonical: "canonical_uuid (uuid_str u)"
  unfolding uuid_str_def Let_def
  by (rule canonical_uuid_append)
     (simp_all add: format_hex_length format_hex_digits list_all_take list_all_drop)

lemma uuid_str_valid: "validate_customer_oid (uuid_str u) = Inr (uuid_str u)"
  by (rule canonical_uuid_valid) (rule uuid_str_canonical)

lemma uuid4_zero: "uuid_str (uuid4 0) = ''00000000-0000-4000-8000-000000000000''"
proof -
  have a: "uuid4 0 = 0x00000000000040008000000000000000" by (simp add: uuid4_def)
  have b: "format_hex 32 (0x00000000000040008000000000000000)
      = ''00000000000040008000000000000000''"
    by (simp add: format_hex_numeral hex_char_def)
  show ?thesis by (simp add: uuid_str_def a b)
qed

lemma find_present:
  "oid \<in> set (map user_customer_oid us) \<Longrightarrow>
   \<exists>u. find (\<lambda>u. user_customer_oid u = oid) us = Some u \<and> user_customer_oid u = oid"
  by (induction us) auto

lemma strip_empty: "strip [] = []"
  by (simp add: strip_def)

lemma register_conflict:
  assumes "choose_customer_oid rnd (request_customer_oid user_data) (get_session db) =
      (Inr oid, get_session db)"
    and "oid \<in> set (map user_customer_oid (user_table db))" and "\<not> flt 0"
  shows "request (register_customer flt rnd user_data) db =
     (Inl (HTTPException 409
        (''Customer with CustomerOID '' @ quoted oid @ '' already exists'')),
      db, [Select ''user''])"
proof -
  from find_present[OF assms(2)] obtain u
    where "find (\<lambda>u. user_customer_oid u = oid) (user_table db) = Some u" by blast
  with assms(1,3) show ?thesis
    by (simp add: register_customer_def except_exception_def request_def and_then_def
        exec_first_def issue_def raise_def get_session_def)
qed

lemma register_fresh:
  assumes "choose_customer_oid rnd (request_customer_oid user_data) (get_session db) =
      (Inr oid, get_session db)"
    and "oid \<notin> set (map user_customer_oid (user_table db))"
    and "2 \<le> length (strip (request_name user_data))"
  shows "request (register_customer no_faults rnd user_data) db =
     (Inr \<lparr>response_customer_oid = oid, response_name = strip (request_name user_data),
           response_message = ''Customer registered successfully''\<rparr>,
      add_user oid (strip (request_name user_data)) db,
      [Select ''user'', Insert ''user'', Commit, Select ''user''])"
proof -
  from assms(3) have ne: "request_name user_data \<noteq> []" using strip_empty by fastforce
  from assms(3) have ln: "\<not> length (strip (request_name user_data)) < 2" by simp
  note f = find_absent[OF assms(2)]
  from assms(1) f ne ln show ?thesis
    by (simp add: register_customer_def except_exception_def request_def action_defs
        no_faults_def get_session_def)
qed

lemma choose_omitted:
  "choose_customer_oid rnd None ses = (Inr (uuid_str (uuid4 rnd)), ses)"
  by (simp add: choose_customer_oid_def return_value_def)

lemma valid_nonempty: "validate_customer_oid c = Inr v \<Longrightarrow> c \<noteq> []"
  by (auto simp: validate_customer_oid_def)

lemma choose_supplied:
  "validate_customer_oid c = Inr c \<Longrightarrow> choose_customer_oid rnd (Some c) ses = (Inr c, ses)"
  using valid_nonempty[of c c] by (simp add: choose_customer_oid_def return_value_def)

lemma masked_bits:
  fixes r :: "'a::len word"
  assumes "b AND m = 0" and "d AND m = 0" and "na AND m = m" and "nc AND m = m"
  shows "((((r AND na) OR b) AND nc) OR d) AND m = r AND m"
proof -
  have "((((r AND na) OR b) AND nc) OR d) AND m = (((r AND na) OR b) AND nc) AND m"
    by (simp add: bit.conj_disj_distrib2 assms(2))
  also have "\<dots> = ((r AND na) OR b) AND m"
    by (simp add: and.assoc assms(4))
  also have "\<dots> = (r AND na) AND m"
    by (simp add: bit.conj_disj_distrib2 assms(1))
  also have "\<dots> = r AND m"
    by (simp add: and.assoc assms(3))
  finally show ?thesis .
qed

lemma uuid4_random_bits: "uuid4 rnd AND random_bits = rnd AND random_bits"
  unfolding uuid4_def Let_def
  by (rule masked_bits) (simp_all add: random_bits_def)

lemma hex_char_value: "d < 16 \<Longrightarrow> digit_value (hex_char d) = d"
proof -
  assume "d < 16"
  then have "d \<in> set [0..<16]" by simp
  moreover have "list_all (\<lambda>d. digit_value (hex_char d) = d) [0..<16]" by code_simp
  ultimately show ?thesis unfolding list_all_iff by blast
qed

lemma format_hex_inj:
  "n < 16 ^ k \<Longrightarrow> m < 16 ^ k \<Longrightarrow> format_hex k n = format_hex k m \<Longrightarrow> n = m"
proof (induction k arbitrary: n m)
  case 0
  then show ?case by simp
next
  case (Suc k)
  from Suc.prems(3) have eq: "format_hex k (n div 16) = format_hex k (m div 16)"
    and ch: "hex_char (n mod 16) = hex_char (m mod 16)"
    by simp_all
  from ch have "digit_value (hex_char (n mod 16)) = digit_value (hex_char (m mod 16))" by simp
  then have md: "n mod 16 = m mod 16" by (simp add: hex_char_value)
  from Suc.prems(1,2) have "n div 16 < 16 ^ k" "m div 16 < 16 ^ k"
    by (simp_all add: less_mult_imp_div_less mult.commute)
  from Suc.IH[OF this eq] have dv: "n div 16 = m div 16" .
  from md dv show ?case by (metis div_mult_mod_eq)
qed

lemma uuid_str_digits:
  "filter (\<lambda>c. c \<noteq> CHR ''-'') (uuid_str u) = format_hex 32 (unat u)"
proof -
  define hex where "hex = format_hex 32 (unat u)"
  have hx: "list_all hex_digit hex" by (simp add: hex_def format_hex_digits)
  have nh: "filter (\<lambda>c. c \<noteq> CHR ''-'') xs = xs" if "list_all hex_digit xs" for xs
    using that hex_digit_facts(3) by (auto simp: list_all_iff filter_id_conv)
  have "filter (\<lambda>c. c \<noteq> CHR ''-'') (uuid_str u) =
      take 8 hex @ take 4 (drop 8 hex) @ take 4 (drop 12 hex) @ take 4 (drop 16 hex) @
      drop 20 hex"
    unfolding uuid_str_def Let_def hex_def[symmetric]
    by (simp add: nh hx list_all_take list_all_drop)
  also have "\<dots> = hex"
  proof -
    have a: "take 4 (drop 16 hex) @ drop 20 hex = drop 16 hex"
      using append_take_drop_id[of 4 "drop 16 hex"] by simp
    have b: "take 4 (drop 12 hex) @ drop 16 hex = drop 12 hex"
      using append_take_drop_id[of 4 "drop 12 hex"] by simp
    have c: "take 4 (drop 8 hex) @ drop 12 hex = drop 8 hex"
      using append_take_drop_id[of 4 "drop 8 hex"] by simp
    show ?thesis unfolding a b c by simp
  qed
  finally show ?thesis by (simp add: hex_def)
qed

lemma uuid_str_inj: "uuid_str u = uuid_str v \<Longrightarrow> u = v"
proof -
  assume "uuid_str u = uuid_str v"
  then have "filter (\<lambda>c. c \<noteq> CHR ''-'') (uuid_str u) = filter (\<lambda>c. c \<noteq> CHR ''-'') (uuid_str v)"
    by simp
  then have eq: "format_hex 32 (unat u) = format_hex 32 (unat v)"
    by (simp only: uuid_str_digits)
  have "unat u < 2 ^ 128" "unat v < 2 ^ 128"
    using unsigned_less[of u] unsigned_less[of v] by simp_all
  then have "unat u < 16 ^ 32" "unat v < 16 ^ 32" by simp_all
  from format_hex_inj[OF this eq] show "u = v" by (rule word_unat_eq_iff[THEN iffD2])
qed

lemma generated_identifier_inj:
  assumes "uuid_str (uuid4 rnd) = uuid_str (uuid4 rnd')"
  shows "rnd AND random_bits = rnd' AND random_bits"
proof -
  from assms have "uuid4 rnd = uuid4 rnd'" by (rule uuid_str_inj)
  then have "uuid4 rnd AND random_bits = uuid4 rnd' AND random_bits" by simp
  then show ?thesis by (simp only: uuid4_random_bits)
qed

lemma register_success:
  assumes "request_customer_oid user_data = None"
    and "request (register_customer flt rnd user_data) db = (Inr resp, db', stmts)"
  shows "response_customer_oid resp = uuid_str (uuid4 rnd)"
    and "uuid_str (uuid4 rnd) \<notin> set (map user_customer_oid (user_table db))"
    and "db' = add_user (uuid_str (uuid4 rnd)) (strip (request_name user_data)) db"
proof -
  let ?oid = "uuid_str (uuid4 rnd)"
  show "?oid \<notin> set (map user_customer_oid (user_table db))"
  proof
    assume "?oid \<in> set (map user_customer_oid (user_table db))"
    from find_present[OF this] obtain u
      where "find (\<lambda>u. user_customer_oid u = ?oid) (user_table db) = Some u" by blast
    with assms show False
      by (auto simp: register_customer_def except_exception_def request_def and_then_def
          exec_first_def issue_def raise_def get_session_def choose_omitted Let_def
          split: if_splits)
  qed
  then have f: "find (\<lambda>u. user_customer_oid u = ?oid) (user_table db) = None"
    by (rule find_absent)
  from assms f show "response_customer_oid resp = ?oid"
    by (auto simp: register_customer_def except_exception_def request_def action_defs
        get_session_def choose_omitted Let_def split: if_splits)
  from assms f show "db' = add_user ?oid (strip (request_name user_data)) db"
    by (auto simp: register_customer_def except_exception_def request_def action_defs
        get_session_def choose_omitted Let_def split: if_splits)
qed

text \<open>Claim C6. The identifier generated for a registration without identifier is a
  canonical UUID that the validator accepts, and it determines the 122 random bits it
  was made from, so that different random bits give different identifiers. Every
  registration without identifier that succeeds returns the generated identifier, which
  no stored customer had before, and appends the customer to the user table; it does
  succeed when no stored customer has the identifier, the trimmed name has at least two
  characters and no statement fails. A registration with a supplied valid identifier
  that a stored customer has fails with status 409 (Conflict) and leaves the store
  unchanged.\<close>

theorem registration_identifier:
  "canonical_uuid (uuid_str (uuid4 rnd)) \<and>
   validate_customer_oid (uuid_str (uuid4 rnd)) = Inr (uuid_str (uuid4 rnd)) \<and>
   (uuid_str (uuid4 rnd) = uuid_str (uuid4 rnd') \<longrightarrow>
      rnd AND random_bits = rnd' AND random_bits) \<and>
   (request_customer_oid user_data = None \<and>
    request (register_customer flt rnd user_data) db = (Inr resp, db', stmts) \<longrightarrow>
      response_customer_oid resp = uuid_str (uuid4 rnd) \<and>
      response_customer_oid resp \<notin> set (map user_customer_oid (user_table db)) \<and>
      db' = add_user (uuid_str (uuid4 rnd)) (strip (request_name user_data)) db) \<and>
   (request_customer_oid user_data = None \<and>
    2 \<le> length (strip (request_name user_data)) \<and>
    uuid_str (uuid4 rnd) \<notin> set (map user_customer_oid (user_table db)) \<longrightarrow>
      request (register_customer no_faults rnd user_data) db =
        (Inr \<lparr>response_customer_oid = uuid_str (uuid4 rnd),
              response_name = strip (request_name user_data),
              response_message = ''Customer registered successfully''\<rparr>,
         add_user (uuid_str (uuid4 rnd)) (strip (request_name user_data)) db,
         [Select ''user'', Insert ''user'', Commit, Select ''user''])) \<and>
   (request_customer_oid user_data = Some c \<and> validate_customer_oid c = Inr c \<and>
    c \<in> set (map user_customer_oid (user_table db)) \<and> \<not> flt 0 \<longrightarrow>
      (\<exists>e. Conflict e \<and>
           request (register_customer flt rnd user_data) db = (Inl e, db, [Select ''user''])))"
proof (intro conjI impI)
  show "canonical_uuid (uuid_str (uuid4 rnd))" by (rule uuid_str_canonical)
  show "validate_customer_oid (uuid_str (uuid4 rnd)) = Inr (uuid_str (uuid4 rnd))"
    by (rule uuid_str_valid)
next
  assume "uuid_str (uuid4 rnd) = uuid_str (uuid4 rnd')"
  then show "rnd AND random_bits = rnd' AND random_bits" by (rule generated_identifier_inj)
next
  assume a: "request_customer_oid user_data = None \<and>
    request (register_customer flt rnd user_data) db = (Inr resp, db', stmts)"
  then have n: "request_customer_oid user_data = None"
    and r: "request (register_customer flt rnd user_data) db = (Inr resp, db', stmts)"
    by simp_all
  note s = register_success[OF n r]
  show "response_customer_oid resp = uuid_str (uuid4 rnd)" by (rule s(1))
  show "response_customer_oid resp \<notin> set (map user_customer_oid (user_table db))"
    unfolding s(1) by (rule s(2))
  show "db' = add_user (uuid_str (uuid4 rnd)) (strip (request_name user_data)) db"
    by (rule s(3))
next
  assume a: "request_customer_oid user_data = None \<and>
    2 \<le> length (strip (request_name user_data)) \<and>
    uuid_str (uuid4 rnd) \<notin> set (map user_customer_oid (user_table db))"
  then have c: "choose_customer_oid rnd (request_customer_oid user_data) (get_session db) =
      (Inr (uuid_str (uuid4 rnd)), get_session db)"
    by (simp add: choose_omitted)
  from a register_fresh[OF c]
  show "request (register_customer no_faults rnd user_data) db =
        (Inr \<lparr>response_customer_oid = uuid_str (uuid4 rnd),
              response_name = strip (request_name user_data),
              response_message = ''Customer registered successfully''\<rparr>,
         add_user (uuid_str (uuid4 rnd)) (strip (request_name user_data)) db,
         [Select ''user'', Insert ''user'', Commit, Select ''user''])"
    by blast
next
  assume a: "request_customer_oid user_data = Some c \<and> validate_customer_oid c = Inr c \<and>
    c \<in> set (map user_customer_oid (user_table db)) \<and> \<not> flt 0"
  then have c: "choose_customer_oid rnd (request_customer_oid user_data) (get_session db) =
      (Inr c, get_session db)"
    by (simp add: choose_supplied)
  from a register_conflict[OF c, of flt]
  show "\<exists>e. Conflict e \<and>
           request (register_customer flt rnd user_data) db = (Inl e, db, [Select ''user''])"
    by (simp add: Conflict_def)
qed

theorem registration_identifier_witness:
  "canonical_uuid (uuid_str (uuid4 0)) \<and>
   validate_customer_oid (uuid_str (uuid4 0)) = Inr (uuid_str (uuid4 0)) \<and>
   uuid_str (uuid4 0) \<noteq> uuid_str (uuid4 1) \<and>
   request (register_customer no_faults 0
      \<lparr>request_name = ''Alice Johnson'', request_customer_oid = None\<rparr>) seeded_store =
     (Inr \<lparr>response_customer_oid = uuid_str (uuid4 0), response_name = ''Alice Johnson'',
           response_message = ''Customer registered successfully''\<rparr>,
      add_user (uuid_str (uuid4 0)) ''Alice Johnson'' seeded_store,
      [Select ''user'', Insert ''user'', Commit, Select ''user'']) \<and>
   uuid_str (uuid4 0) \<notin> set (map user_customer_oid (user_table seeded_store)) \<and>
   (\<exists>e. Conflict e \<and>
      request (register_customer no_faults 0
        \<lparr>request_name = ''Alice Johnson'', request_customer_oid = Some seed_oid\<rparr>)
        seeded_store =
        (Inl e, seeded_store, [Select ''user'']))"
proof -
  let ?alice = "\<lparr>request_name = ''Alice Johnson'', request_customer_oid = None\<rparr>"
  let ?resp = "\<lparr>response_customer_oid = uuid_str (uuid4 0), response_name = ''Alice Johnson'',
           response_message = ''Customer registered successfully''\<rparr>"
  have s: "strip ''Alice Johnson'' = ''Alice Johnson''"
    by (simp add: strip_def str_space_def)
  have fresh: "uuid_str (uuid4 0) \<notin> set (map user_customer_oid (user_table seeded_store))"
    by (simp add: uuid4_zero seeded_store_def seed_oid_def)
  have seed: "seed_oid \<in> set (map user_customer_oid (user_table seeded_store))"
    by (simp add: seeded_store_def)
  have f: "\<not> no_faults 0" by (simp add: no_faults_def)
  have bits: "(0 :: 128 word) AND random_bits \<noteq> 1 AND random_bits"
    by (simp add: random_bits_def)
  note t = registration_identifier[of 0 1 ?alice no_faults seeded_store ?resp
      "add_user (uuid_str (uuid4 0)) ''Alice Johnson'' seeded_store"
      "[Select ''user'', Insert ''user'', Commit, Select ''user'']" seed_oid]
  from t have 1: "canonical_uuid (uuid_str (uuid4 0))"
    and 2: "validate_customer_oid (uuid_str (uuid4 0)) = Inr (uuid_str (uuid4 0))"
    by blast+
  from t bits have 3: "uuid_str (uuid4 0) \<noteq> uuid_str (uuid4 1)" by blast
  from t s fresh have run: "request (register_customer no_faults 0 ?alice) seeded_store =
     (Inr ?resp, add_user (uuid_str (uuid4 0)) ''Alice Johnson'' seeded_store,
      [Select ''user'', Insert ''user'', Commit, Select ''user''])"
    by simp
  from t run have 5: "response_customer_oid ?resp
      \<notin> set (map user_customer_oid (user_table seeded_store))"
    by simp
  from registration_identifier[of 0 1
      "\<lparr>request_name = ''Alice Johnson'', request_customer_oid = Some seed_oid\<rparr>"
      no_faults seeded_store ?resp seeded_store "[]" seed_oid] seed f seed_oid_valid
  have 6: "\<exists>e. Conflict e \<and>
      request (register_customer no_faults 0
        \<lparr>request_name = ''Alice Johnson'', request_customer_oid = Some seed_oid\<rparr>)
        seeded_store =
        (Inl e, seeded_store, [Select ''user''])"
    by simp
  from 1 2 3 run 5 6 show ?thesis by simp
qed

section \<open>Properties of deletion\<close>

lemma delete_each_no_faults:
  "delete_each (\<lambda>n. False) table del rows ses =
     (Inr (), ses\<lparr>pending := fold del rows (pending ses),
                 issued := issued ses @ replicate (length rows) (Delete table)\<rparr>)"
proof (induction rows arbitrary: ses)
  case Nil
  then show ?case by (simp add: return_value_def)
next
  case (Cons row rows)
  show ?case
    by (simp add: Cons.IH session_delete_def and_then_def issue_def
        replicate_app_Cons_same)
qed

lemma fold_del_asset:
  "fold del_asset rows st =
     st\<lparr>asset_table := filter (\<lambda>r. asset_id r \<notin> asset_id ` set rows) (asset_table st)\<rparr>"
  by (induction rows arbitrary: st) (simp_all add: del_asset_def conj_commute)

lemma fold_del_transaction:
  "fold del_transaction rows st =
     st\<lparr>transaction_table :=
          filter (\<lambda>r. transaction_id r \<notin> transaction_id ` set rows) (transaction_table st)\<rparr>"
  by (induction rows arbitrary: st) (simp_all add: del_transaction_def conj_commute)

lemma fold_del_spending:
  "fold del_spending rows st =
     st\<lparr>spending_table :=
          filter (\<lambda>r. spending_id r \<notin> spending_id ` set rows) (spending_table st)\<rparr>"
  by (induction rows arbitrary: st) (simp_all add: del_spending_def conj_commute)

lemma fold_del_account:
  "fold del_account rows st =
     st\<lparr>bankaccount_table :=
          filter (\<lambda>r. account_id r \<notin> account_id ` set rows) (bankaccount_table st)\<rparr>"
  by (induction rows arbitrary: st) (simp_all add: del_account_def conj_commute)

lemma fold_del_derivative:
  "fold del_derivative rows st =
     st\<lparr>derivativetransaction_table :=
          filter (\<lambda>r. deriv_id r \<notin> deriv_id ` set rows) (derivativetransaction_table st)\<rparr>"
  by (induction rows arbitrary: st) (simp_all add: del_derivative_def conj_commute)

lemma no_faults_eq: "no_faults = (\<lambda>n. False)"
  by (simp add: no_faults_def fun_eq_iff)

lemma check_customer_exists_absent:
  assumes "validate_customer_oid oid = Inr oid"
    and "oid \<notin> set (map user_customer_oid (user_table db))"
  shows "request (check_customer_exists no_faults oid) db =
     (Inr \<lparr>exists_customer_oid = oid, exists_flag = False, exists_name = None\<rparr>,
      db, [Select ''user''])"
  using assms(1) find_absent[OF assms(2)]
  by (simp add: check_customer_exists_def request_def get_session_def action_defs no_faults_def)

lemma delete_customer_run:
  assumes "validate_customer_oid oid = Inr oid"
    and "find (\<lambda>u. user_customer_oid u = oid) (user_table db) = Some u"
  shows "\<exists>issued. request (delete_customer no_faults oid) db =
     (Inr \<lparr>deleted_customer_oid = oid,
           deleted_message = ''Customer and all associated data deleted successfully''\<rparr>,
      db\<lparr>user_table := filter (\<lambda>r. user_id r \<noteq> user_id u) (user_table db),
         asset_table :=
           filter (\<lambda>r. asset_id r \<notin>
               asset_id ` set (filter (\<lambda>r. asset_customer_oid r = oid) (asset_table db)))
             (asset_table db),
         transaction_table :=
           filter (\<lambda>r. transaction_id r \<notin>
               transaction_id `
                 set (filter (\<lambda>r. transaction_customer_oid r = oid) (transaction_table db)))
             (transaction_table db),
         spending_table :=
           filter (\<lambda>r. spending_id r \<notin>
               spending_id `
                 set (filter (\<lambda>r. spending_customer_oid r = oid) (spending_table db)))
             (spending_table db),
         bankaccount_table :=
           filter (\<lambda>r. account_id r \<notin>
               account_id `
                 set (filter (\<lambda>r. account_customer_oid r = oid) (bankaccount_table db)))
             (bankaccount_table db),
         derivativetransaction_table :=
           filter (\<lambda>r. deriv_id r \<notin>
               deriv_id `
                 set (filter (\<lambda>r. deriv_customer_oid r = oid)
                        (derivativetransaction_table db)))
             (derivativetransaction_table db)\<rparr>,
      issued)"
  using assms
  by (simp add: delete_customer_def except_exception_def request_def get_session_def
      action_defs no_faults_eq delete_each_no_faults fold_del_asset fold_del_transaction
      fold_del_spending fold_del_account fold_del_derivative del_user_def)

lemma delete_by_key:
  assumes "distinct (map key xs)"
  shows "filter (\<lambda>r. key r \<notin> key ` set (filter P xs)) xs = filter (\<lambda>r. \<not> P r) xs"
proof (rule filter_cong[OF refl])
  fix r assume r: "r \<in> set xs"
  from assms have inj: "inj_on key (set xs)" by (simp add: distinct_map)
  show "(key r \<notin> key ` set (filter P xs)) = (\<not> P r)"
  proof
    assume "key r \<notin> key ` set (filter P xs)"
    with r show "\<not> P r" by auto
  next
    assume n: "\<not> P r"
    show "key r \<notin> key ` set (filter P xs)"
    proof
      assume "key r \<in> key ` set (filter P xs)"
      then obtain r' where r': "r' \<in> set xs" "P r'" "key r = key r'" by auto
      with inj r have "r = r'" by (auto dest: inj_onD)
      with n r' show False by simp
    qed
  qed
qed

lemma delete_user_by_key:
  assumes "distinct (map user_id us)" and "distinct (map user_customer_oid us)"
    and "find (\<lambda>u. user_customer_oid u = oid) us = Some u"
  shows "filter (\<lambda>r. user_id r \<noteq> user_id u) us = filter (\<lambda>r. user_customer_oid r \<noteq> oid) us"
proof (rule filter_cong[OF refl])
  fix r assume r: "r \<in> set us"
  from assms(3) have u: "u \<in> set us" "user_customer_oid u = oid"
    by (auto simp: find_Some_iff)
  from assms(1) have i1: "inj_on user_id (set us)" by (simp add: distinct_map)
  from assms(2) have i2: "inj_on user_customer_oid (set us)" by (simp add: distinct_map)
  show "(user_id r \<noteq> user_id u) = (user_customer_oid r \<noteq> oid)"
    using r u i1 i2 by (auto dest: inj_onD)
qed

lemma without_customer_absent:
  "oid \<notin> set (map user_customer_oid (user_table (without_customer oid db)))"
  by (auto simp: without_customer_def)

text \<open>Claim C7. For every store that meets the constraints of the schema and has the
  customer: deletion of its (valid) identifier succeeds when no statement fails, and
  the store afterwards is the store before without the rows of that identifier in the
  five dependent tables and in the user table: the rows of every other customer and the
  institution table are unchanged. The existence check then answers false.\<close>

theorem deletion_removes_customer:
  assumes "validate_customer_oid oid = Inr oid"
    and "oid \<in> set (map user_customer_oid (user_table db))"
    and "schema_constraints db"
  shows "(\<exists>issued.
            request (delete_customer no_faults oid) db =
              (Inr \<lparr>deleted_customer_oid = oid,
                    deleted_message =
                      ''Customer and all associated data deleted successfully''\<rparr>,
               without_customer oid db, issued)) \<and>
         institution_table (without_customer oid db) = institution_table db \<and>
         request (check_customer_exists no_faults oid) (without_customer oid db) =
           (Inr \<lparr>exists_customer_oid = oid, exists_flag = False, exists_name = None\<rparr>,
            without_customer oid db, [Select ''user''])"
proof -
  from find_present[OF assms(2)] obtain u
    where f: "find (\<lambda>u. user_customer_oid u = oid) (user_table db) = Some u" by blast
  from assms(3) have d: "distinct (map user_id (user_table db))"
    "distinct (map user_customer_oid (user_table db))"
    "distinct (map asset_id (asset_table db))"
    "distinct (map transaction_id (transaction_table db))"
    "distinct (map spending_id (spending_table db))"
    "distinct (map account_id (bankaccount_table db))"
    "distinct (map deriv_id (derivativetransaction_table db))"
    by (simp_all add: schema_constraints_def)
  have run: "\<exists>issued.
      request (delete_customer no_faults oid) db =
        (Inr \<lparr>deleted_customer_oid = oid,
              deleted_message = ''Customer and all associated data deleted successfully''\<rparr>,
         without_customer oid db, issued)"
    using delete_customer_run[OF assms(1) f]
    unfolding without_customer_def delete_user_by_key[OF d(1) d(2) f]
      delete_by_key[OF d(3)] delete_by_key[OF d(4)] delete_by_key[OF d(5)]
      delete_by_key[OF d(6)] delete_by_key[OF d(7)]
    by simp
  have inst: "institution_table (without_customer oid db) = institution_table db"
    by (simp add: without_customer_def)
  from run inst check_customer_exists_absent[OF assms(1) without_customer_absent]
  show ?thesis by blast
qed

theorem deletion_removes_customer_witness:
  "(\<exists>issued.
      request (delete_customer no_faults seed_oid) two_customer_store =
        (Inr \<lparr>deleted_customer_oid = seed_oid,
              deleted_message = ''Customer and all associated data deleted successfully''\<rparr>,
         without_customer seed_oid two_customer_store, issued)) \<and>
   institution_table (without_customer seed_oid two_customer_store) =
     institution_table two_customer_store \<and>
   request (check_customer_exists no_faults seed_oid)
       (without_customer seed_oid two_customer_store) =
     (Inr \<lparr>exists_customer_oid = seed_oid, exists_flag = False, exists_name = None\<rparr>,
      without_customer seed_oid two_customer_store, [Select ''user'']) \<and>
   map user_customer_oid (user_table (without_customer seed_oid two_customer_store)) =
     [''CUST0002''] \<and>
   map asset_id (asset_table (without_customer seed_oid two_customer_store)) = [2] \<and>
   map spending_id (spending_table (without_customer seed_oid two_customer_store)) = [3] \<and>
   map account_id (bankaccount_table (without_customer seed_oid two_customer_store)) = [3]"
proof -
  have a: "seed_oid \<in> set (map user_customer_oid (user_table two_customer_store))"
    by (simp add: two_customer_store_def seeded_store_def)
  have b: "schema_constraints two_customer_store"
    by (simp add: schema_constraints_def two_customer_store_def seeded_store_def seed_oid_def)
  have c: "map user_customer_oid (user_table (without_customer seed_oid two_customer_store)) =
       [''CUST0002'']"
    "map asset_id (asset_table (without_customer seed_oid two_customer_store)) = [2]"
    "map spending_id (spending_table (without_customer seed_oid two_customer_store)) = [3]"
    "map account_id (bankaccount_table (without_customer seed_oid two_customer_store)) = [3]"
    by (simp_all add: without_customer_def two_customer_store_def seeded_store_def seed_oid_def)
  from deletion_removes_customer[OF seed_oid_valid a b] c show ?thesis by blast
qed

section \<open>Properties under failures\<close>

lemma passing_Inl:
  "passing (Inl e) = (case e of DatabaseError msg \<Rightarrow> False | HTTPException code detail \<Rightarrow> True)"
  by (cases e) simp_all

lemma failed_snoc:
  "some_statement_failed flt (stmts @ [st]) =
     (some_statement_failed flt stmts \<or> flt (length stmts))"
  by (auto simp: some_statement_failed_def list_ex_iff less_Suc_eq)

lemma keeps_return: "keeps flt (return_value a)"
  by (simp add: keeps_def return_value_def)

lemma keeps_raise: "keeps flt (raise e)"
  by (simp add: keeps_def raise_def)

lemma keeps_issue: "keeps flt (issue flt st)"
  by (auto simp: keeps_def issue_def Let_def failed_snoc split: if_splits)

lemma keeps_and_then:
  assumes "keeps flt m" and "\<And>a. keeps flt (f a)"
  shows "keeps flt (and_then m f)"
  unfolding keeps_def
proof (intro allI impI)
  fix ses r ses''
  assume run: "and_then m f ses = (r, ses'')"
  obtain r1 ses' where m: "m ses = (r1, ses')" by (cases "m ses")
  from assms(1) m have k1: "database ses' = database ses"
    "passing r1 \<and> \<not> some_statement_failed flt (issued ses) \<longrightarrow>
       \<not> some_statement_failed flt (issued ses')"
    unfolding keeps_def by blast+
  show "database ses'' = database ses \<and>
        (passing r \<and> \<not> some_statement_failed flt (issued ses) \<longrightarrow>
           \<not> some_statement_failed flt (issued ses''))"
  proof (cases r1)
    case (Inl e)
    with run m have "r = Inl e" "ses'' = ses'" by (simp_all add: and_then_def)
    with k1 Inl show ?thesis by (simp add: passing_Inl)
  next
    case (Inr a)
    with run m have f: "f a ses' = (r, ses'')" by (simp add: and_then_def)
    from assms(2)[of a] f have "database ses'' = database ses'"
      "passing r \<and> \<not> some_statement_failed flt (issued ses') \<longrightarrow>
         \<not> some_statement_failed flt (issued ses'')"
      unfolding keeps_def by blast+
    with k1 Inr show ?thesis by auto
  qed
qed

lemma atomic_and_then:
  assumes "keeps flt m" and "\<And>a. atomic flt (f a)"
  shows "atomic flt (and_then m f)"
  unfolding atomic_def
proof (intro allI impI)
  fix ses r ses''
  assume run: "and_then m f ses = (r, ses'')"
  obtain r1 ses' where m: "m ses = (r1, ses')" by (cases "m ses")
  from assms(1) m have k1: "database ses' = database ses"
    "passing r1 \<and> \<not> some_statement_failed flt (issued ses) \<longrightarrow>
       \<not> some_statement_failed flt (issued ses')"
    unfolding keeps_def by blast+
  show "(isl r \<longrightarrow> database ses'' = database ses) \<and>
        (passing r \<and> \<not> some_statement_failed flt (issued ses) \<longrightarrow>
           \<not> some_statement_failed flt (issued ses''))"
  proof (cases r1)
    case (Inl e)
    with run m have "r = Inl e" "ses'' = ses'" by (simp_all add: and_then_def)
    with k1 Inl show ?thesis by (simp add: passing_Inl)
  next
    case (Inr a)
    with run m have f: "f a ses' = (r, ses'')" by (simp add: and_then_def)
    from assms(2)[of a] f have "isl r \<longrightarrow> database ses'' = database ses'"
      "passing r \<and> \<not> some_statement_failed flt (issued ses') \<longrightarrow>
         \<not> some_statement_failed flt (issued ses'')"
      unfolding atomic_def by blast+
    with k1 Inr show ?thesis by auto
  qed
qed

lemma keeps_atomic: "keeps flt m \<Longrightarrow> atomic flt m"
  by (simp add: keeps_def atomic_def)

lemma keeps_exec_first: "keeps flt (exec_first flt table rows cond)"
  unfolding exec_first_def
  by (rule keeps_and_then[OF keeps_issue]) (simp add: keeps_def)

lemma keeps_exec_all: "keeps flt (exec_all flt table rows cond)"
  unfolding exec_all_def
  by (rule keeps_and_then[OF keeps_issue]) (simp add: keeps_def)

lemma keeps_session_delete: "keeps flt (session_delete flt table f)"
  unfolding session_delete_def
  by (rule keeps_and_then[OF keeps_issue]) (simp add: keeps_def)

lemma keeps_delete_each: "keeps flt (delete_each flt table del rows)"
  by (induction rows) (simp_all add: keeps_return keeps_and_then keeps_session_delete)

lemma atomic_commit: "atomic flt (and_then (session_commit flt) (\<lambda>_. return_value a))"
  by (auto simp: atomic_def session_commit_def and_then_def return_value_def issue_def Let_def
      failed_snoc split: if_splits)

lemma atomic_delete_body:
  "atomic flt
     (and_then
        (exec_first flt ''user'' user_table (\<lambda>u. user_customer_oid u = customer_oid))
        (\<lambda>found. case found of
           None \<Rightarrow>
             raise (HTTPException 404
               (''Customer with CustomerOID '' @ quoted customer_oid @ '' not found''))
         | Some user \<Rightarrow>
             and_then (exec_all flt ''asset'' asset_table
               (\<lambda>r. asset_customer_oid r = customer_oid)) (\<lambda>assets.
             and_then (delete_each flt ''asset'' del_asset assets) (\<lambda>_.
             and_then (exec_all flt ''transaction'' transaction_table
               (\<lambda>r. transaction_customer_oid r = customer_oid)) (\<lambda>transactions.
             and_then (delete_each flt ''transaction'' del_transaction transactions) (\<lambda>_.
             and_then (exec_all flt ''spending'' spending_table
               (\<lambda>r. spending_customer_oid r = customer_oid)) (\<lambda>spending.
             and_then (delete_each flt ''spending'' del_spending spending) (\<lambda>_.
             and_then (exec_all flt ''bankaccount'' bankaccount_table
               (\<lambda>r. account_customer_oid r = customer_oid)) (\<lambda>bank_accounts.
             and_then (delete_each flt ''bankaccount'' del_account bank_accounts) (\<lambda>_.
             and_then (exec_all flt ''derivativetransaction'' derivativetransaction_table
               (\<lambda>r. deriv_customer_oid r = customer_oid)) (\<lambda>derivatives.
             and_then (delete_each flt ''derivativetransaction'' del_derivative
               derivatives) (\<lambda>_.
             and_then (session_delete flt ''user'' (del_user user)) (\<lambda>_.
             and_then (session_commit flt) (\<lambda>_.
             return_value
               \<lparr>deleted_customer_oid = customer_oid,
                deleted_message =
                  ''Customer and all associated data deleted successfully''\<rparr>))))))))))))))"
proof (rule atomic_and_then[OF keeps_exec_first])
  fix found :: "User option"
  show "atomic flt (case found of
           None \<Rightarrow>
             raise (HTTPException 404
               (''Customer with CustomerOID '' @ quoted customer_oid @ '' not found''))
         | Some user \<Rightarrow>
             and_then (exec_all flt ''asset'' asset_table
               (\<lambda>r. asset_customer_oid r = customer_oid)) (\<lambda>assets.
             and_then (delete_each flt ''asset'' del_asset assets) (\<lambda>_.
             and_then (exec_all flt ''transaction'' transaction_table
               (\<lambda>r. transaction_customer_oid r = customer_oid)) (\<lambda>transactions.
             and_then (delete_each flt ''transaction'' del_transaction transactions) (\<lambda>_.
             and_then (exec_all flt ''spending'' spending_table
               (\<lambda>r. spending_customer_oid r = customer_oid)) (\<lambda>spending.
             and_then (delete_each flt ''spending'' del_spending spending) (\<lambda>_.
             and_then (exec_all flt ''bankaccount'' bankaccount_table
               (\<lambda>r. account_customer_oid r = customer_oid)) (\<lambda>bank_accounts.
             and_then (delete_each flt ''bankaccount'' del_account bank_accounts) (\<lambda>_.
             and_then (exec_all flt ''derivativetransaction'' derivativetransaction_table
               (\<lambda>r. deriv_customer_oid r = customer_oid)) (\<lambda>derivatives.
             and_then (delete_each flt ''derivativetransaction'' del_derivative
               derivatives) (\<lambda>_.
             and_then (session_delete flt ''user'' (del_user user)) (\<lambda>_.
             and_then (session_commit flt) (\<lambda>_.
             return_value
               \<lparr>deleted_customer_oid = customer_oid,
                deleted_message =
                  ''Customer and all associated data deleted successfully''\<rparr>)))))))))))))"
  proof (cases found)
    case None
    then show ?thesis by (simp add: keeps_atomic keeps_raise)
  next
    case (Some user)
    show ?thesis
      unfolding Some option.case
      by (intro atomic_and_then keeps_exec_all keeps_delete_each keeps_session_delete
          atomic_commit)
  qed
qed

text \<open>Claim C8. For every store, every identifier and every pattern of failures: when
  some statement issued by a deletion fails, the deletion as a whole fails, with status
  500, and the committed contents of the store after it are the contents before it.\<close>

theorem deletion_all_or_nothing:
  assumes "request (delete_customer flt oid) db = (r, db', stmts)"
    and "some_statement_failed flt stmts"
  shows "(\<exists>detail. r = Inl (HTTPException 500 detail)) \<and> db' = db"
proof (cases "validate_customer_oid oid")
  case (Inl e)
  with assms(1) have "stmts = []"
    by (simp add: delete_customer_def request_def raise_def get_session_def)
  with assms(2) show ?thesis by (simp add: some_statement_failed_def)
next
  case (Inr customer_oid)
  define body where "body =
      and_then
        (exec_first flt ''user'' user_table (\<lambda>u. user_customer_oid u = customer_oid))
        (\<lambda>found. case found of
           None \<Rightarrow>
             raise (HTTPException 404
               (''Customer with CustomerOID '' @ quoted customer_oid @ '' not found''))
         | Some user \<Rightarrow>
             and_then (exec_all flt ''asset'' asset_table
               (\<lambda>r. asset_customer_oid r = customer_oid)) (\<lambda>assets.
             and_then (delete_each flt ''asset'' del_asset assets) (\<lambda>_.
             and_then (exec_all flt ''transaction'' transaction_table
               (\<lambda>r. transaction_customer_oid r = customer_oid)) (\<lambda>transactions.
             and_then (delete_each flt ''transaction'' del_transaction transactions) (\<lambda>_.
             and_then (exec_all flt ''spending'' spending_table
               (\<lambda>r. spending_customer_oid r = customer_oid)) (\<lambda>spending.
             and_then (delete_each flt ''spending'' del_spending spending) (\<lambda>_.
             and_then (exec_all flt ''bankaccount'' bankaccount_table
               (\<lambda>r. account_customer_oid r = customer_oid)) (\<lambda>bank_accounts.
             and_then (delete_each flt ''bankaccount'' del_account bank_accounts) (\<lambda>_.
             and_then (exec_all flt ''derivativetransaction'' derivativetransaction_table
               (\<lambda>r. deriv_customer_oid r = customer_oid)) (\<lambda>derivatives.
             and_then (delete_each flt ''derivativetransaction'' del_derivative
               derivatives) (\<lambda>_.
             and_then (session_delete flt ''user'' (del_user user)) (\<lambda>_.
             and_then (session_commit flt) (\<lambda>_.
             return_value
               \<lparr>deleted_customer_oid = customer_oid,
                deleted_message =
                  ''Customer and all associated data deleted successfully''\<rparr>)))))))))))))"
  have at: "atomic flt body" unfolding body_def by (rule atomic_delete_body)
  have dc: "delete_customer flt oid = except_exception ''Failed to delete customer: '' body"
    by (simp only: delete_customer_def Inr body_def sum.case)
  obtain rb sb where b: "body (get_session db) = (rb, sb)" by (cases "body (get_session db)")
  from at b have keep: "isl rb \<longrightarrow> database sb = db"
    and clean: "passing rb \<longrightarrow> \<not> some_statement_failed flt (issued sb)"
    unfolding atomic_def by (auto simp: get_session_def some_statement_failed_def)
  show ?thesis
  proof (cases "passing rb")
    case True
    then have "except_exception ''Failed to delete customer: '' body (get_session db) = (rb, sb)"
      using b by (auto simp: except_exception_def passing_Inl split: sum.splits exn.splits)
    with assms(1) dc have "stmts = issued sb" by (simp add: request_def)
    with clean True assms(2) show ?thesis by simp
  next
    case False
    then obtain msg where rb: "rb = Inl (DatabaseError msg)"
      by (cases rb rule: passing.cases) simp_all
    with b have "except_exception ''Failed to delete customer: '' body (get_session db) =
        (Inl (HTTPException 500 (''Failed to delete customer: '' @ msg)), session_rollback sb)"
      by (simp add: except_exception_def)
    with assms(1) dc have "r = Inl (HTTPException 500 (''Failed to delete customer: '' @ msg))"
      and "db' = database (session_rollback sb)"
      by (simp_all add: request_def)
    moreover from keep rb have "database (session_rollback sb) = db"
      by (simp add: session_rollback_def)
    ultimately show ?thesis by simp
  qed
qed

theorem deletion_all_or_nothing_witness:
  "some_statement_failed spending_delete_fails
     (snd (snd (request (delete_customer spending_delete_fails seed_oid) seeded_store))) \<and>
   (\<exists>detail. fst (request (delete_customer spending_delete_fails seed_oid) seeded_store) =
      Inl (HTTPException 500 detail)) \<and>
   fst (snd (request (delete_customer spending_delete_fails seed_oid) seeded_store)) =
     seeded_store"
proof -
  have stmts: "snd (snd (request (delete_customer spending_delete_fails seed_oid) seeded_store)) =
      [Select ''user'', Select ''asset'', Delete ''asset'', Select ''transaction'',
       Select ''spending'', Delete ''spending'', Rollback]"
    by (simp add: delete_customer_def seed_oid_valid except_exception_def request_def
        get_session_def action_defs session_rollback_def spending_delete_fails_def
        seeded_store_def del_asset_def)
  have failed: "some_statement_failed spending_delete_fails
      [Select ''user'', Select ''asset'', Delete ''asset'', Select ''transaction'',
       Select ''spending'', Delete ''spending'', Rollback]"
    by code_simp
  obtain r db' issued
    where run: "request (delete_customer spending_delete_fails seed_oid) seeded_store =
      (r, db', issued)"
    by (cases "request (delete_customer spending_delete_fails seed_oid) seeded_store")
  with stmts have i: "issued = [Select ''user'', Select ''asset'', Delete ''asset'',
      Select ''transaction'', Select ''spending'', Delete ''spending'', Rollback]"
    by simp
  from deletion_all_or_nothing[OF run] failed i
  have "(\<exists>detail. r = Inl (HTTPException 500 detail)) \<and> db' = seeded_store" by simp
  with run failed i show ?thesis by simp
qed

lemma register_short_name:
  assumes "length (strip (request_name user_data)) < 2"
    and "choose_customer_oid rnd (request_customer_oid user_data) (get_session db) =
      (Inr c, get_session db)"
    and "c \<notin> set (map user_customer_oid (user_table db))" and "\<not> flt 0"
  shows "request (register_customer flt rnd user_data) db =
     (Inl (HTTPException 400 ''Name must be at least 2 characters long''), db,
      [Select ''user''])"
  using assms(1,2,4) find_absent[OF assms(3)]
  by (simp add: register_customer_def except_exception_def request_def and_then_def
      exec_first_def issue_def raise_def get_session_def)

lemma register_invalid:
  assumes "request_customer_oid user_data = Some c" and "c \<noteq> []"
    and "validate_customer_oid c = Inl e"
  shows "request (register_customer flt rnd user_data) db = (Inl e, db, [])"
proof -
  from assms(3) have "InvalidArgument e" by (rule validate_status)
  then obtain code detail where e: "e = HTTPException code detail"
    by (cases e) (simp_all add: InvalidArgument_def)
  with assms show ?thesis
    by (simp add: register_customer_def except_exception_def request_def and_then_def
        choose_customer_oid_def raise_def get_session_def)
qed

text \<open>Claim C9, as amended. For aggregation, existence check and deletion, an identifier
  that fails validation gives status 400 and no statement is issued; so does a supplied,
  non-empty identifier that fails validation in a registration. A registration whose
  trimmed name has fewer than two characters, with an identifier \<open>c\<close> that is generated
  or supplied and valid and that no stored customer has, gives status 400 after the
  existence query has been issued, and issues no write.\<close>

theorem validation_before_store:
  "(validate_customer_oid oid = Inl e \<longrightarrow>
      InvalidArgument e \<and>
      request (get_user_portfolio flt oid) db = (Inl e, db, []) \<and>
      request (check_customer_exists flt oid) db = (Inl e, db, []) \<and>
      request (delete_customer flt oid) db = (Inl e, db, [])) \<and>
   (request_customer_oid user_data = Some c \<and> c \<noteq> [] \<and> validate_customer_oid c = Inl e \<longrightarrow>
      InvalidArgument e \<and>
      request (register_customer flt rnd user_data) db = (Inl e, db, [])) \<and>
   (length (strip (request_name user_data)) < 2 \<and>
    choose_customer_oid rnd (request_customer_oid user_data) (get_session db) =
      (Inr c, get_session db) \<and>
    c \<notin> set (map user_customer_oid (user_table db)) \<and> \<not> flt 0 \<longrightarrow>
      request (register_customer flt rnd user_data) db =
        (Inl (HTTPException 400 ''Name must be at least 2 characters long''), db,
         [Select ''user'']))"
proof (intro conjI impI)
  assume v: "validate_customer_oid oid = Inl e"
  then show "InvalidArgument e" by (rule validate_status)
  from v show "request (get_user_portfolio flt oid) db = (Inl e, db, [])"
    by (simp add: get_user_portfolio_def request_def get_session_def raise_def)
  from v show "request (check_customer_exists flt oid) db = (Inl e, db, [])"
    by (simp add: check_customer_exists_def request_def get_session_def raise_def)
  from v show "request (delete_customer flt oid) db = (Inl e, db, [])"
    by (simp add: delete_customer_def request_def get_session_def raise_def)
next
  assume a: "request_customer_oid user_data = Some c \<and> c \<noteq> [] \<and>
    validate_customer_oid c = Inl e"
  then show "InvalidArgument e" using validate_status by blast
  from a register_invalid show "request (register_customer flt rnd user_data) db = (Inl e, db, [])"
    by blast
next
  assume "length (strip (request_name user_data)) < 2 \<and>
    choose_customer_oid rnd (request_customer_oid user_data) (get_session db) =
      (Inr c, get_session db) \<and>
    c \<notin> set (map user_customer_oid (user_table db)) \<and> \<not> flt 0"
  then show "request (register_customer flt rnd user_data) db =
        (Inl (HTTPException 400 ''Name must be at least 2 characters long''), db,
         [Select ''user''])"
    using register_short_name by blast
qed

text \<open>Claim C9 as stated fails: a registration with the name \<open>A\<close> and no identifier is
  rejected with status 400 only after the query for an existing customer has been
  issued.\<close>

theorem short_name_reaches_store:
  "request (register_customer no_faults 0
      \<lparr>request_name = ''A'', request_customer_oid = None\<rparr>) seeded_store =
     (Inl (HTTPException 400 ''Name must be at least 2 characters long''), seeded_store,
      [Select ''user''])"
proof -
  have n: "length (strip (request_name
      \<lparr>request_name = ''A'', request_customer_oid = None\<rparr>)) < 2"
    by (simp add: strip_def str_space_def)
  have c: "choose_customer_oid 0
      (request_customer_oid \<lparr>request_name = ''A'', request_customer_oid = None\<rparr>)
      (get_session seeded_store) = (Inr (uuid_str (uuid4 0)), get_session seeded_store)"
    by (simp add: choose_omitted)
  have fresh: "uuid_str (uuid4 0) \<notin> set (map user_customer_oid (user_table seeded_store))"
    by (simp add: uuid4_zero seeded_store_def seed_oid_def)
  have f: "\<not> no_faults 0" by (simp add: no_faults_def)
  from register_short_name[where flt = no_faults, OF n c fresh f] show ?thesis .
qed

theorem validation_before_store_witness:
  "(\<exists>e. InvalidArgument e \<and>
      request (get_user_portfolio no_faults ''invalid-oid'') seeded_store =
        (Inl e, seeded_store, []) \<and>
      request (check_customer_exists no_faults ''invalid-oid'') seeded_store =
        (Inl e, seeded_store, []) \<and>
      request (delete_customer no_faults ''invalid-oid'') seeded_store =
        (Inl e, seeded_store, []) \<and>
      request (register_customer no_faults 0
        \<lparr>request_name = ''Alice Johnson'', request_customer_oid = Some ''invalid-oid''\<rparr>)
        seeded_store = (Inl e, seeded_store, [])) \<and>
   request (register_customer no_faults 0
      \<lparr>request_name = ''A'', request_customer_oid = None\<rparr>) seeded_store =
     (Inl (HTTPException 400 ''Name must be at least 2 characters long''), seeded_store,
      [Select ''user''])"
proof -
  from invalid_oid_rejected obtain e where e: "validate_customer_oid ''invalid-oid'' = Inl e"
    by (auto simp: isl_def)
  have n: "length (strip (request_name
      \<lparr>request_name = ''A'', request_customer_oid = None\<rparr>)) < 2"
    by (simp add: strip_def str_space_def)
  have c: "choose_customer_oid 0
      (request_customer_oid \<lparr>request_name = ''A'', request_customer_oid = None\<rparr>)
      (get_session seeded_store) = (Inr (uuid_str (uuid4 0)), get_session seeded_store)"
    by (simp add: choose_omitted)
  have fresh: "uuid_str (uuid4 0) \<notin> set (map user_customer_oid (user_table seeded_store))"
    by (simp add: uuid4_zero seeded_store_def seed_oid_def)
  have f: "\<not> no_faults 0" by (simp add: no_faults_def)
  from validation_before_store[of "''invalid-oid''" e no_faults seeded_store
      "\<lparr>request_name = ''Alice Johnson'', request_customer_oid = Some ''invalid-oid''\<rparr>"
      "''invalid-oid''" 0] e
  have 1: "InvalidArgument e \<and>
      request (get_user_portfolio no_faults ''invalid-oid'') seeded_store =
        (Inl e, seeded_store, []) \<and>
      request (check_customer_exists no_faults ''invalid-oid'') seeded_store =
        (Inl e, seeded_store, []) \<and>
      request (delete_customer no_faults ''invalid-oid'') seeded_store =
        (Inl e, seeded_store, []) \<and>
      request (register_customer no_faults 0
        \<lparr>request_name = ''Alice Johnson'', request_customer_oid = Some ''invalid-oid''\<rparr>)
        seeded_store = (Inl e, seeded_store, [])"
    by simp
  from validation_before_store[of "''invalid-oid''" e no_faults seeded_store
      "\<lparr>request_name = ''A'', request_customer_oid = None\<rparr>" "uuid_str (uuid4 0)" 0]
    n c fresh f
  have 2: "request (register_customer no_faults 0
      \<lparr>request_name = ''A'', request_customer_oid = None\<rparr>) seeded_store =
     (Inl (HTTPException 400 ''Name must be at least 2 characters long''), seeded_store,
      [Select ''user''])"
    by blast
  from 1 2 show ?thesis by blast
qed

end
